theory Spec2Isabelle
  imports Main "HOL-Library.Word"
begin

unbundle bit_operations_syntax

section \<open>The packet dispatch core of packetd\<close>

text \<open>
  The development embeds \<^verbatim>\<open>services/dispatch/nfqueue.go\<close> (the NFQueue dispatcher),
  the geoip plugin's handler and the nft ruleset script. Go pointers to sessions are
  addresses into an explicit heap, every mutation is a function from world to world, a
  panic or a goroutine that never gets its message is a value of the outcome type.
\<close>

subsection \<open>Addresses, tuples and packets\<close>

text \<open>A \<^verbatim>\<open>net.IP\<close> is a byte slice: 4 bytes, 16 bytes, or nil (the empty list).\<close>

type_synonym IP = "8 word list"

text \<open>
  \<^verbatim>\<open>net.IP.To4\<close>, \<^verbatim>\<open>net.IP.Equal\<close> and \<^verbatim>\<open>net.IP.IsLoopback\<close> of the Go standard
  library, which the dispatcher calls on the packet's addresses.
\<close>

definition v4InV6Prefix :: IP where
  "v4InV6Prefix = [0, 0, 0, 0, 0, 0, 0, 0, 0, 0, 0xff, 0xff]"

definition To4 :: "IP \<Rightarrow> IP option" where
  "To4 ip =
     (if length ip = 4 then Some ip
      else if length ip = 16 \<and> take 12 ip = v4InV6Prefix then Some (drop 12 ip)
      else None)"

definition IPEqual :: "IP \<Rightarrow> IP \<Rightarrow> bool" where
  "IPEqual ip x =
     (if length ip = length x then ip = x
      else if length ip = 4 \<and> length x = 16 then take 12 x = v4InV6Prefix \<and> ip = drop 12 x
      else if length ip = 16 \<and> length x = 4 then take 12 ip = v4InV6Prefix \<and> drop 12 ip = x
      else False)"

definition IPv6loopback :: IP where
  "IPv6loopback = [0, 0, 0, 0, 0, 0, 0, 0, 0, 0, 0, 0, 0, 0, 0, 1]"

definition IsLoopback :: "IP \<Rightarrow> bool" where
  "IsLoopback ip =
     (case To4 ip of
        Some ip4 \<Rightarrow> hd ip4 = 127
      | None \<Rightarrow> IPEqual ip IPv6loopback)"

record Tuple =
  Protocol :: "8 word"
  ClientAddress :: IP
  ClientPort :: "16 word"
  ServerAddress :: IP
  ServerPort :: "16 word"

definition zeroTuple :: Tuple where
  "zeroTuple = \<lparr>Protocol = 0, ClientAddress = [], ClientPort = 0,
                ServerAddress = [], ServerPort = 0\<rparr>"

text \<open>
  Modelled from the spec: \<^verbatim>\<open>Tuple.Equal\<close> is defined outside the files at hand. The
  specification says the incoming client-side tuple is compared to the stored one and
  that they "match byte-for-byte", which is equality of the five components.
\<close>

definition TupleEqual :: "Tuple \<Rightarrow> Tuple \<Rightarrow> bool" where
  "TupleEqual t o' =
     (Protocol t = Protocol o' \<and> ClientAddress t = ClientAddress o' \<and>
      ServerAddress t = ServerAddress o' \<and> ClientPort t = ClientPort o' \<and>
      ServerPort t = ServerPort o')"

text \<open>
  The layers of a parsed \<^verbatim>\<open>gopacket.Packet\<close> that the dispatcher asks for. A layer the
  packet does not have is \<open>None\<close> (Go: \<^verbatim>\<open>Layer(...) == nil\<close>).
\<close>

record IPv4 =
  v4Protocol :: "8 word"
  v4SrcIP :: IP
  v4DstIP :: IP

record IPv6 =
  v6NextHeader :: "8 word"
  v6SrcIP :: IP
  v6DstIP :: IP

record TCP =
  tcpSrcPort :: "16 word"
  tcpDstPort :: "16 word"
  RST :: bool
  FIN :: bool

record UDP =
  udpSrcPort :: "16 word"
  udpDstPort :: "16 word"

record Packet =
  LayerIPv4 :: "IPv4 option"
  LayerIPv6 :: "IPv6 option"
  LayerTCP :: "TCP option"
  LayerUDP :: "UDP option"
  ApplicationLayer :: "8 word list option"

subsection \<open>Messages, results and plugin handlers\<close>

record NfqueueMessage =
  Session :: "nat option"
  MsgTuple :: Tuple
  Family :: int
  Packet :: Packet
  PacketMark :: "32 word"
  Length :: int
  ClientToServer :: bool
  IP4Layer :: "IPv4 option"
  IP6Layer :: "IPv6 option"
  TCPLayer :: "TCP option"
  UDPLayer :: "UDP option"
  Payload :: "8 word list"

record NfqueueResult =
  SessionRelease :: bool

record subscriberResult =
  owner :: string
  sessionRelease :: bool

datatype DictValue = DBool bool | DInt int | DString string

text \<open>
  A handler is Go code of a plugin. What the dispatcher can see of one invocation is
  the calls the handler makes into the dispatcher and the dictionary, in order, always on
  the session of the message it was handed, and how the invocation ends: it returns an
  \<^verbatim>\<open>NfqueueResult\<close>, or it does not return before the watchdog fires.
\<close>

datatype PluginAction =
    CallReleaseSession string
  | CallAddSessionEntry "32 word" string DictValue
  | CallPutAttachment string string
  | CallLogEvent string

datatype HandlerEnd = Returns NfqueueResult | NeverReturns

type_synonym NfqueueHandlerFunction =
  "NfqueueMessage \<Rightarrow> 32 word \<Rightarrow> bool \<Rightarrow> PluginAction list \<times> HandlerEnd"

text \<open>
  \<^verbatim>\<open>SubscriptionHolder\<close> is declared outside the files at hand; the dispatcher reads
  its fields \<^verbatim>\<open>Owner\<close>, \<^verbatim>\<open>Priority\<close> and \<^verbatim>\<open>NfqueueFunc\<close>.
\<close>

record SubscriptionHolder =
  Owner :: string
  Priority :: int
  NfqueueFunc :: NfqueueHandlerFunction

text \<open>A Go \<^verbatim>\<open>map[string]SubscriptionHolder\<close>, in a fixed iteration order.\<close>

type_synonym Subscriptions = "(string \<times> SubscriptionHolder) list"

subsection \<open>Sessions and the world\<close>

text \<open>
  Modelled from the spec: the \<^verbatim>\<open>Session\<close> type and its accessors are defined outside
  the files at hand. The fields are the attributes the specification lists for a session:
  session id, conntrack id, creation and last-activity timestamps, packet, byte and event
  counters, client-side tuple, address family, client and server interface id and type,
  the conntrack-confirmed flag, the attachments and the live subscription set.
\<close>

record Session =
  sessionID :: "64 word"
  conntrackID :: "32 word"
  creationTime :: nat
  lastActivityTime :: nat
  packetCount :: "64 word"
  byteCount :: "64 word"
  eventCount :: "64 word"
  clientSideTuple :: Tuple
  family :: "8 word"
  conntrackConfirmed :: bool
  clientInterfaceID :: "8 word"
  clientInterfaceType :: "8 word"
  serverInterfaceID :: "8 word"
  serverInterfaceType :: "8 word"
  attachments :: "string \<rightharpoonup> string"
  subscriptions :: Subscriptions

definition zeroSession :: Session where
  "zeroSession =
     \<lparr>sessionID = 0, conntrackID = 0, creationTime = 0, lastActivityTime = 0,
      packetCount = 0, byteCount = 0, eventCount = 0, clientSideTuple = zeroTuple,
      family = 0, conntrackConfirmed = False, clientInterfaceID = 0,
      clientInterfaceType = 0, serverInterfaceID = 0, serverInterfaceType = 0,
      attachments = Map.empty, subscriptions = []\<rparr>"

datatype LogLevel = LogErr | LogWarn | LogInfo | LogDebug

text \<open>
  One call of the logger: its level, its format string and, for a format that starts
  with the overseer verb \<^verbatim>\<open>%OC|\<close>, the name of the counter it bumps.
\<close>

datatype LogLine = LogLine LogLevel string | LogCounted LogLevel string string

text \<open>
  Everything the dispatcher reads and writes: the session objects by address, the
  session and conntrack tables, the global nfqueue subscription list, the \<^verbatim>\<open>sessions\<close>
  table of the dictionary, the clock (the n-th call of \<^verbatim>\<open>time.Now\<close> reads
  \<open>clockReadings n\<close>), the logger calls made and the handler invocations made
  (owner, ctid, new-session flag).
\<close>

record World =
  heap :: "nat \<Rightarrow> Session"
  heapNext :: nat
  sessionTable :: "32 word \<rightharpoonup> nat"
  conntrackTable :: "32 word \<rightharpoonup> Tuple"
  sessionIndex :: "64 word"
  nfqueueList :: Subscriptions
  dictSessions :: "32 word \<Rightarrow> string \<rightharpoonup> DictValue"
  clockReadings :: "nat \<Rightarrow> nat"
  clockTicks :: nat
  logged :: "LogLine list"
  invoked :: "(string \<times> 32 word \<times> bool) list"

definition timeNow :: "World \<Rightarrow> nat \<times> World" where
  "timeNow w = (clockReadings w (clockTicks w), w\<lparr>clockTicks := clockTicks w + 1\<rparr>)"

definition logger :: "LogLine \<Rightarrow> World \<Rightarrow> World" where
  "logger l w = w\<lparr>logged := logged w @ [l]\<rparr>"

text \<open>
  Modelled from the spec: \<^verbatim>\<open>dict.AddSessionEntry\<close> is defined outside the files at
  hand. It is the dictionary's \<^verbatim>\<open>set(table, key, field, value)\<close> on the
  \<^verbatim>\<open>sessions\<close> table, whose key is the ctid; writes are last-writer-wins.
\<close>

definition AddSessionEntry :: "32 word \<Rightarrow> string \<Rightarrow> DictValue \<Rightarrow> World \<Rightarrow> World" where
  "AddSessionEntry ctid field v w =
     w\<lparr>dictSessions := (dictSessions w)(ctid := (dictSessions w ctid)(field \<mapsto> v))\<rparr>"

text \<open>An update of the session object at an address, as the setters of a session do.\<close>

definition updSession :: "nat \<Rightarrow> (Session \<Rightarrow> Session) \<Rightarrow> World \<Rightarrow> World" where
  "updSession a f w = w\<lparr>heap := (heap w)(a := f (heap w a))\<rparr>"

text \<open>Go's \<^verbatim>\<open>delete(m, key)\<close> on a map kept as an association list.\<close>

definition deleteKey :: "string \<Rightarrow> Subscriptions \<Rightarrow> Subscriptions" where
  "deleteKey k m = filter (\<lambda>kv. fst kv \<noteq> k) m"

subsection \<open>ReleaseSession\<close>

definition ReleaseSession :: "nat \<Rightarrow> string \<Rightarrow> World \<Rightarrow> World" where
  "ReleaseSession session owner' w =
     (let origLen = length (subscriptions (heap w session)) in
      if origLen = 0 then w
      else
        let w1 = updSession session
                   (\<lambda>s. s\<lparr>subscriptions := deleteKey owner' (subscriptions s)\<rparr>) w;
            len = length (subscriptions (heap w1 session));
            w2 = (if origLen \<noteq> len
                  then logger (LogLine LogDebug ''Removing %s session nfqueue subscription for session %d'') w1
                  else w1)
        in if len = 0
           then AddSessionEntry (conntrackID (heap w2 session)) ''bypass_packetd'' (DBool True)
                  (logger (LogLine LogDebug ''Zero subscribers reached - settings bypass_packetd=true for session %d'') w2)
           else w2)"

subsection \<open>Session table, conntrack table and session creation\<close>

text \<open>
  Modelled from the spec: the tables and their operations are defined outside the files
  at hand. The specification gives two mappings keyed by ctid with \<^verbatim>\<open>find\<close>,
  \<^verbatim>\<open>insert\<close> (an existing key is overwritten) and \<^verbatim>\<open>remove\<close> (idempotent); a
  session is removed under its own conntrack id. Session ids are assigned monotonically.
  A session, when created, takes a snapshot of the global nfqueue subscription list
  (\<^verbatim>\<open>AttachNfqueueSubscriptions\<close>), and the dispatcher takes a snapshot of the session's
  live set for each packet (\<^verbatim>\<open>MirrorNfqueueSubscriptions\<close>).
\<close>

definition findSession :: "32 word \<Rightarrow> World \<Rightarrow> nat option" where
  "findSession ctid w = sessionTable w ctid"

definition insertSessionTable :: "32 word \<Rightarrow> nat \<Rightarrow> World \<Rightarrow> World" where
  "insertSessionTable ctid session w = w\<lparr>sessionTable := (sessionTable w)(ctid \<mapsto> session)\<rparr>"

definition removeFromSessionTable :: "nat \<Rightarrow> World \<Rightarrow> World" where
  "removeFromSessionTable session w =
     w\<lparr>sessionTable := (sessionTable w)(conntrackID (heap w session) := None)\<rparr>"

definition findConntrack :: "32 word \<Rightarrow> World \<Rightarrow> Tuple option" where
  "findConntrack ctid w = conntrackTable w ctid"

definition removeConntrack :: "32 word \<Rightarrow> World \<Rightarrow> World" where
  "removeConntrack ctid w = w\<lparr>conntrackTable := (conntrackTable w)(ctid := None)\<rparr>"

definition nextSessionID :: "World \<Rightarrow> 64 word \<times> World" where
  "nextSessionID w = (sessionIndex w, w\<lparr>sessionIndex := sessionIndex w + 1\<rparr>)"

definition AttachNfqueueSubscriptions :: "nat \<Rightarrow> World \<Rightarrow> World" where
  "AttachNfqueueSubscriptions session w =
     updSession session (\<lambda>s. s\<lparr>subscriptions := nfqueueList w\<rparr>) w"

definition MirrorNfqueueSubscriptions :: "nat \<Rightarrow> World \<Rightarrow> Subscriptions" where
  "MirrorNfqueueSubscriptions session w = subscriptions (heap w session)"

text \<open>
  \<^verbatim>\<open>createSession\<close>: \<^verbatim>\<open>new(Session)\<close> takes the next free address, whose object is
  the zero value; the setters follow in the order of the source.
\<close>

definition createSession :: "NfqueueMessage \<Rightarrow> 32 word \<Rightarrow> World \<Rightarrow> nat \<times> World" where
  "createSession mess ctid w =
     (let session = heapNext w;
          w = w\<lparr>heap := (heap w)(session := zeroSession), heapNext := session + 1\<rparr>;
          sid = fst (nextSessionID w);
          w = snd (nextSessionID w);
          w = updSession session (\<lambda>s. s\<lparr>sessionID := sid\<rparr>) w;
          w = updSession session (\<lambda>s. s\<lparr>conntrackID := ctid\<rparr>) w;
          now = fst (timeNow w);
          w = snd (timeNow w);
          w = updSession session (\<lambda>s. s\<lparr>creationTime := now\<rparr>) w;
          w = updSession session (\<lambda>s. s\<lparr>packetCount := 1\<rparr>) w;
          w = updSession session (\<lambda>s. s\<lparr>byteCount := word_of_int (Length mess)\<rparr>) w;
          w = updSession session (\<lambda>s. s\<lparr>eventCount := 1\<rparr>) w;
          now = fst (timeNow w);
          w = snd (timeNow w);
          w = updSession session (\<lambda>s. s\<lparr>lastActivityTime := now\<rparr>) w;
          w = updSession session (\<lambda>s. s\<lparr>clientSideTuple := MsgTuple mess\<rparr>) w;
          w = updSession session (\<lambda>s. s\<lparr>family := word_of_int (Family mess)\<rparr>) w;
          w = updSession session (\<lambda>s. s\<lparr>conntrackConfirmed := False\<rparr>) w;
          w = updSession session (\<lambda>s. s\<lparr>attachments := Map.empty\<rparr>) w;
          w = AttachNfqueueSubscriptions session w;
          w = insertSessionTable ctid session w
      in (session, w))"

subsection \<open>callSubscribers\<close>

definition NfDrop :: int where
  "NfDrop = 0"

definition NfAccept :: int where
  "NfAccept = 1"

text \<open>
  How a call of the dispatcher ends: it returns a verdict, the process dies in a panic,
  or the calling goroutine waits for ever on a channel nobody sends on.
\<close>

datatype Outcome = Returned int | Panicked string | Blocked

text \<open>
  Modelled from the spec: \<^verbatim>\<open>Session.PutAttachment\<close> is defined outside the files at
  hand; the session owns a map of plugin attachments by name.
\<close>

definition PutAttachment :: "nat \<Rightarrow> string \<Rightarrow> string \<Rightarrow> World \<Rightarrow> World" where
  "PutAttachment session k v w =
     updSession session (\<lambda>s. s\<lparr>attachments := (attachments s)(k \<mapsto> v)\<rparr>) w"

text \<open>
  The calls of a handler, run on the session pointer of the message. A call through a
  nil pointer is a runtime panic in the handler's goroutine, which ends the process:
  the flag is \<open>False\<close> then and the remaining calls are not made.
\<close>

fun runAction :: "nat option \<Rightarrow> PluginAction \<Rightarrow> World \<Rightarrow> bool \<times> World" where
  "runAction None (CallReleaseSession owner') w = (False, w)"
| "runAction (Some session) (CallReleaseSession owner') w = (True, ReleaseSession session owner' w)"
| "runAction s (CallAddSessionEntry ctid field v) w = (True, AddSessionEntry ctid field v w)"
| "runAction None (CallPutAttachment k v) w = (False, w)"
| "runAction (Some session) (CallPutAttachment k v) w = (True, PutAttachment session k v w)"
| "runAction None (CallLogEvent e) w = (False, w)"
| "runAction (Some session) (CallLogEvent e) w = (True, w)"

fun runActions :: "nat option \<Rightarrow> PluginAction list \<Rightarrow> World \<Rightarrow> bool \<times> World" where
  "runActions s [] w = (True, w)"
| "runActions s (a # as) w =
     (case runAction s a w of
        (False, w1) \<Rightarrow> (False, w1)
      | (True, w1) \<Rightarrow> runActions s as w1)"

text \<open>
  One goroutine spawned for a subscriber (the \<^verbatim>\<open>go func(key, val, pri)\<close> of the
  source). It starts the handler in a goroutine of its own, which sends the handler's
  result on the buffered channel \<^verbatim>\<open>c\<close>, and selects on \<^verbatim>\<open>c\<close> and the 30-second timer.
  \<^item> \<open>Sent r\<close>: the handler returned, \<open>r\<close> was read from \<^verbatim>\<open>c\<close> and forwarded on
    \<^verbatim>\<open>resultsChannel\<close>.
  \<^item> \<open>Kept r\<close>: the timer fired first; the error is logged and \<open>r\<close>, the synthesised
    release, is sent on \<^verbatim>\<open>c\<close>, where it stays: nothing is sent on \<^verbatim>\<open>resultsChannel\<close>.
  \<^item> \<open>Crashed\<close>: the handler's goroutine panicked.
\<close>

datatype TaskEnd = Sent subscriberResult | Kept subscriberResult | Crashed

definition pluginTask ::
  "string \<Rightarrow> SubscriptionHolder \<Rightarrow> NfqueueMessage \<Rightarrow> 32 word \<Rightarrow> bool \<Rightarrow> World \<Rightarrow> TaskEnd \<times> World" where
  "pluginTask key val mess ctid newSession w =
     (let (acts, fin) = NfqueueFunc val mess ctid newSession;
          (ok, w1) = runActions (Session mess) acts
                       (w\<lparr>invoked := invoked w @ [(key, ctid, newSession)]\<rparr>)
      in if \<not> ok then (Crashed, w1)
         else case fin of
                Returns result \<Rightarrow>
                  (Sent \<lparr>owner = key, sessionRelease = SessionRelease result\<rparr>, w1)
              | NeverReturns \<Rightarrow>
                  (Kept \<lparr>owner = key, sessionRelease = True\<rparr>,
                   logger (LogCounted LogErr ''%OC|Timeout reached while processing nfqueue. plugin:%s''
                             ''nfqueue_plugin_timeout'') w1))"

text \<open>
  The subscribers of one priority, in the order of the list. In the source they run
  concurrently; the model runs them one after the other.
\<close>

fun spawnTier ::
  "Subscriptions \<Rightarrow> NfqueueMessage \<Rightarrow> 32 word \<Rightarrow> bool \<Rightarrow> World \<Rightarrow> TaskEnd list \<times> World" where
  "spawnTier [] mess ctid newSession w = ([], w)"
| "spawnTier ((key, val) # rest) mess ctid newSession w =
     (case pluginTask key val mess ctid newSession w of
        (Crashed, w1) \<Rightarrow> ([Crashed], w1)
      | (e, w1) \<Rightarrow>
          (case spawnTier rest mess ctid newSession w1 of (es, w2) \<Rightarrow> (e # es, w2)))"

text \<open>What arrives on \<^verbatim>\<open>resultsChannel\<close>.\<close>

fun resultsChannel :: "TaskEnd list \<Rightarrow> subscriberResult list" where
  "resultsChannel [] = []"
| "resultsChannel (Sent r # es) = r # resultsChannel es"
| "resultsChannel (e # es) = resultsChannel es"

text \<open>
  The loop that reads \<^verbatim>\<open>hitcount\<close> results from \<^verbatim>\<open>resultsChannel\<close>. With fewer
  messages than \<^verbatim>\<open>hitcount\<close> the receive never completes: the flag is \<open>False\<close>.
\<close>

fun collectResults :: "nat \<Rightarrow> nat \<Rightarrow> subscriberResult list \<Rightarrow> World \<Rightarrow> bool \<times> World" where
  "collectResults session 0 chan w = (True, w)"
| "collectResults session (Suc i) [] w = (False, w)"
| "collectResults session (Suc i) (result # chan) w =
     collectResults session i chan
       (if sessionRelease result then ReleaseSession session (owner result) w else w)"

text \<open>
  The priority walk, \<^verbatim>\<open>for subcount != subtotal\<close>. The result is how the loop ended
  (\<open>None\<close>: the loop condition became false), the number of iterations begun (\<open>n\<close>
  counts them; it is not a variable of the source) and the world.
\<close>

function priorityWalk ::
  "32 word \<Rightarrow> nat \<Rightarrow> NfqueueMessage \<Rightarrow> bool \<Rightarrow> Subscriptions \<Rightarrow> nat \<Rightarrow> int \<Rightarrow> nat \<Rightarrow> World
     \<Rightarrow> Outcome option \<times> nat \<times> World" where
  "priorityWalk ctid session mess newSession sublist subcount priority n w =
     (if subcount = length sublist then (None, n, w)
      else
        let tier = filter (\<lambda>kv. Priority (snd kv) = priority) sublist;
            hitcount = length tier;
            (ends, w1) = spawnTier tier mess ctid newSession w
        in if Crashed \<in> set ends
           then (Some (Panicked ''invalid memory address or nil pointer dereference''), n + 1, w1)
           else
             case collectResults session hitcount (resultsChannel ends) w1 of
               (False, w2) \<Rightarrow> (Some Blocked, n + 1, w2)
             | (True, w2) \<Rightarrow>
                 if priority + 1 > 100
                 then (Some (Panicked ''Constraint failed - infinite loop detected''), n + 1,
                       logger (LogCounted LogErr ''%OC|Priority > 100 Constraint failed! %d %d %d %v''
                                 ''nfqueue_priority_constraint'') w2)
                 else priorityWalk ctid session mess newSession sublist
                        (subcount + hitcount) (priority + 1) (n + 1) w2)"
  by pat_completeness auto
termination
  by (relation "measure (\<lambda>(ctid, session, mess, newSession, sublist, subcount, priority, n, w).
                  nat (101 - priority))") auto

definition callSubscribers ::
  "32 word \<Rightarrow> nat \<Rightarrow> NfqueueMessage \<Rightarrow> 32 word \<Rightarrow> bool \<Rightarrow> World \<Rightarrow> Outcome \<times> World" where
  "callSubscribers ctid session mess pmark newSession w =
     (let sublist = MirrorNfqueueSubscriptions session w;
          subtotal = length sublist
      in if subtotal = 0
         then (Returned NfAccept,
               AddSessionEntry (conntrackID (heap w session)) ''bypass_packetd'' (DBool True) w)
         else
           case priorityWalk ctid session mess newSession sublist 0 0 0 w of
             (None, n, w1) \<Rightarrow> (Returned NfAccept, w1)
           | (Some out, n, w1) \<Rightarrow> (out, w1))"

subsection \<open>nfqueueCallback\<close>

definition zeroMessage :: NfqueueMessage where
  "zeroMessage =
     \<lparr>Session = None, MsgTuple = zeroTuple, Family = 0,
      Packet = \<lparr>LayerIPv4 = None, LayerIPv6 = None, LayerTCP = None, LayerUDP = None,
                ApplicationLayer = None\<rparr>,
      PacketMark = 0, Length = 0, ClientToServer = False, IP4Layer = None, IP6Layer = None,
      TCPLayer = None, UDPLayer = None, Payload = []\<rparr>"

text \<open>
  The IPv4 and IPv6 layers: the message with the layer and the addresses of the tuple
  filled in, or \<open>None\<close> where the packet has neither layer and the callback returns.
\<close>

definition ipLayers :: "NfqueueMessage \<Rightarrow> NfqueueMessage option" where
  "ipLayers mess =
     (case LayerIPv4 (Packet mess) of
        Some ip4 \<Rightarrow>
          Some (mess\<lparr>IP4Layer := Some ip4,
                      MsgTuple := (MsgTuple mess)\<lparr>Protocol := v4Protocol ip4,
                                    ClientAddress := v4SrcIP ip4, ServerAddress := v4DstIP ip4\<rparr>\<rparr>)
      | None \<Rightarrow>
          (case LayerIPv6 (Packet mess) of
             Some ip6 \<Rightarrow>
               Some (mess\<lparr>IP6Layer := Some ip6,
                           MsgTuple := (MsgTuple mess)\<lparr>Protocol := v6NextHeader ip6,
                                         ClientAddress := v6SrcIP ip6, ServerAddress := v6DstIP ip6\<rparr>\<rparr>)
           | None \<Rightarrow> None))"

text \<open>The TCP, UDP and application layers.\<close>

definition upperLayers :: "NfqueueMessage \<Rightarrow> NfqueueMessage" where
  "upperLayers mess =
     (let mess = (case LayerTCP (Packet mess) of
                    Some tcp \<Rightarrow>
                      mess\<lparr>TCPLayer := Some tcp,
                            MsgTuple := (MsgTuple mess)\<lparr>ClientPort := tcpSrcPort tcp,
                                          ServerPort := tcpDstPort tcp\<rparr>\<rparr>
                  | None \<Rightarrow> mess);
          mess = (case LayerUDP (Packet mess) of
                    Some udp \<Rightarrow>
                      mess\<lparr>UDPLayer := Some udp,
                            MsgTuple := (MsgTuple mess)\<lparr>ClientPort := udpSrcPort udp,
                                          ServerPort := udpDstPort udp\<rparr>\<rparr>
                  | None \<Rightarrow> mess)
      in case ApplicationLayer (Packet mess) of
           Some payload \<Rightarrow> mess\<lparr>Payload := payload\<rparr>
         | None \<Rightarrow> mess)"

text \<open>
  The session of the packet, from \<^verbatim>\<open>findSession\<close> to the conntrack id check. \<open>Inl\<close>
  is the return of the callback for a mid-session packet without a session; \<open>Inr\<close>
  carries the session and the value of \<^verbatim>\<open>newSession\<close> on to the rest of the callback.
\<close>

definition sessionResolution ::
  "32 word \<Rightarrow> NfqueueMessage \<Rightarrow> bool \<Rightarrow> World \<Rightarrow> (Outcome \<times> World) + (nat \<times> bool \<times> World)" where
  "sessionResolution ctid mess newSession w =
     (case findSession ctid w of
        None \<Rightarrow>
          if \<not> newSession then
            let w = (if (case TCPLayer mess of Some tcp \<Rightarrow> RST tcp | None \<Rightarrow> False)
                     then logger (LogLine LogDebug ''Ignoring mid-session RST packet: %s %d'') w
                     else if (case TCPLayer mess of Some tcp \<Rightarrow> FIN tcp | None \<Rightarrow> False)
                     then logger (LogLine LogDebug ''Ignoring mid-session FIN packet: %s %d'') w
                     else logger (LogLine LogInfo ''Ignoring mid-session packet: %s %d'') w)
            in Inl (Returned NfAccept, AddSessionEntry ctid ''bypass_packetd'' (DBool True) w)
          else
            (case createSession mess ctid w of (session, w) \<Rightarrow> Inr (session, newSession, w))
      | Some session \<Rightarrow>
          (case (if newSession then
                   if TupleEqual (MsgTuple mess) (clientSideTuple (heap w session))
                   then (session, False, w)
                   else
                     let w = logger (LogLine LogDebug ''Conflicting session [%d] %v != %v'') w;
                         w = removeFromSessionTable session w
                     in (case createSession mess ctid w of
                           (session, w) \<Rightarrow> (session, newSession, w))
                 else (session, newSession, w)) of
             (session, newSession, w) \<Rightarrow>
               Inr (session, newSession,
                    if conntrackID (heap w session) \<noteq> ctid
                    then logger (LogCounted LogErr ''%OC|Conntrack ID mismatch: %s  %d != %d %v''
                                   ''conntrack_id_mismatch'') w
                    else w)))"

text \<open>
  The rest of the callback up to the call of the subscribers, block by block as the
  comments of the source divide it. First the sanity check of a new session: a conntrack
  entry that already exists for the ctid is logged, and the entry is removed.
\<close>

definition conntrackCheck :: "32 word \<Rightarrow> bool \<Rightarrow> World \<Rightarrow> World" where
  "conntrackCheck ctid newSession w =
     (if newSession
      then removeConntrack ctid
             (case findConntrack ctid w of
                Some conntrack \<Rightarrow>
                  logger (LogLine LogDebug ''Removing previous conntrack.'')
                    (logger (LogLine LogDebug ''Existing Conntrack : %v'')
                      (logger (LogLine LogDebug ''New Session        : %v'')
                        (logger (LogLine LogDebug ''Found existing conntrack (ctid: %v) for new session:'') w)))
              | None \<Rightarrow> w)
      else w)"

text \<open>The direction of the packet.\<close>

definition direction :: "nat \<Rightarrow> NfqueueMessage \<Rightarrow> World \<Rightarrow> NfqueueMessage" where
  "direction session mess w =
     (if IPEqual (ClientAddress (MsgTuple mess)) (ClientAddress (clientSideTuple (heap w session)))
      then mess\<lparr>ClientToServer := True\<rparr>
      else mess\<lparr>ClientToServer := False\<rparr>)"

text \<open>
  The interface id and type from the mark: of the client on a new session, of the server
  on a server-to-client packet while the server interface id is still zero.
\<close>

definition interfaceAttribution :: "nat \<Rightarrow> bool \<Rightarrow> NfqueueMessage \<Rightarrow> 32 word \<Rightarrow> World \<Rightarrow> World" where
  "interfaceAttribution session newSession mess pmark w =
     (let w = (if newSession
               then updSession session
                      (\<lambda>s. s\<lparr>clientInterfaceType := ucast (drop_bit 24 (pmark AND 0x03000000))\<rparr>)
                      (updSession session
                         (\<lambda>s. s\<lparr>clientInterfaceID := ucast (pmark AND 0x000000FF)\<rparr>) w)
               else w)
      in if \<not> ClientToServer mess \<and> serverInterfaceID (heap w session) = 0
         then updSession session
                (\<lambda>s. s\<lparr>serverInterfaceType := ucast (drop_bit 24 (pmark AND 0x03000000))\<rparr>)
                (updSession session
                   (\<lambda>s. s\<lparr>serverInterfaceID := ucast (pmark AND 0x000000FF)\<rparr>) w)
         else w)"

text \<open>
  Modelled from the spec: the counters of a session are updated by \<^verbatim>\<open>AddPacketCount\<close>,
  \<^verbatim>\<open>AddByteCount\<close> and \<^verbatim>\<open>AddEventCount\<close>, defined outside the files at hand; each adds
  its argument to a 64-bit counter. The warning at 100 and 200 packets calls
  \<^verbatim>\<open>time.Since\<close>, which reads the clock once more.
\<close>

definition accounting :: "nat \<Rightarrow> NfqueueMessage \<Rightarrow> World \<Rightarrow> World" where
  "accounting session mess w =
     (let now = fst (timeNow w);
          w = snd (timeNow w);
          w = updSession session (\<lambda>s. s\<lparr>lastActivityTime := now\<rparr>) w;
          w = updSession session (\<lambda>s. s\<lparr>packetCount := packetCount s + 1\<rparr>) w;
          w = updSession session
                (\<lambda>s. s\<lparr>byteCount := byteCount s + word_of_int (Length mess)\<rparr>) w;
          w = updSession session (\<lambda>s. s\<lparr>eventCount := eventCount s + 1\<rparr>) w;
          packetcount = packetCount (heap w session)
      in if packetcount = 100 \<or> packetcount = 200
         then logger (LogLine LogWarn ''Deep session scan. %v ctid:%v Packets:%v Bytes:%v Subscribers:%v Age:%v'')
                (snd (timeNow w))
         else w)"

definition packetAccounting ::
  "32 word \<Rightarrow> nat \<Rightarrow> bool \<Rightarrow> NfqueueMessage \<Rightarrow> 32 word \<Rightarrow> World \<Rightarrow> NfqueueMessage \<times> World" where
  "packetAccounting ctid session newSession mess pmark w =
     (let mess = mess\<lparr>Session := Some session\<rparr>;
          w = conntrackCheck ctid newSession w;
          mess = direction session mess w;
          w = interfaceAttribution session newSession mess pmark w;
          w = accounting session mess w
      in (mess, w))"

text \<open>
  The callback. Trace-level logging, which the source guards with
  \<^verbatim>\<open>IsTraceEnabled\<close>, and the timing map that feeds it are left out.
\<close>

definition newMessage :: "32 word \<Rightarrow> Packet \<Rightarrow> int \<Rightarrow> 32 word \<Rightarrow> NfqueueMessage" where
  "newMessage family' packet packetLength pmark =
     zeroMessage\<lparr>Family := uint family', Packet := packet, PacketMark := pmark,
                  Length := packetLength\<rparr>"

definition nfqueueCallback ::
  "32 word \<Rightarrow> 32 word \<Rightarrow> Packet \<Rightarrow> int \<Rightarrow> 32 word \<Rightarrow> World \<Rightarrow> Outcome \<times> World" where
  "nfqueueCallback ctid family' packet packetLength pmark w =
     (case ipLayers (newMessage family' packet packetLength pmark) of
        None \<Rightarrow> (Returned NfAccept, w)
      | Some mess \<Rightarrow>
          if IsLoopback (ClientAddress (MsgTuple mess)) \<or> IsLoopback (ServerAddress (MsgTuple mess))
          then (Returned NfAccept,
                logger (LogLine LogWarn ''nfqueue event for loopback packet: %v'') w)
          else
            let newSession = (pmark AND 0x10000000 \<noteq> 0);
                mess = upperLayers mess
            in (case sessionResolution ctid mess newSession w of
                  Inl early \<Rightarrow> early
                | Inr (session, newSession, w) \<Rightarrow>
                    (case packetAccounting ctid session newSession mess pmark w of
                       (mess, w) \<Rightarrow> callSubscribers ctid session mess pmark newSession w)))"

subsection \<open>The geoip plugin's handler\<close>

text \<open>
  \<^verbatim>\<open>PluginNfqueueHandler\<close> of the geoip plugin. It releases the session itself, by a
  call of \<^verbatim>\<open>dispatch.ReleaseSession\<close>, and returns the zero \<^verbatim>\<open>NfqueueResult\<close>. The
  private address blocks and the GeoIP database are data of the plugin:
  \<open>isPrivateIP\<close> and \<open>geoDatabase\<close> stand for them (\<open>geoDatabase = None\<close> is the nil
  reader, a lookup that gives \<open>None\<close> is one that fails or has an empty ISO code).
\<close>

definition pluginName :: string where
  "pluginName = ''geoip''"

definition geoCountry :: "(IP \<Rightarrow> bool) \<Rightarrow> (IP \<Rightarrow> string option) option \<Rightarrow> IP option \<Rightarrow> string" where
  "geoCountry isPrivateIP geoDatabase addr =
     (let country = (case addr of
                       Some a \<Rightarrow> if isPrivateIP a then ''XL'' else ''XU''
                     | None \<Rightarrow> ''XU'')
      in case (geoDatabase, addr) of
           (Some db, Some a) \<Rightarrow>
             if country = ''XU''
             then (case db a of Some isoCode \<Rightarrow> isoCode | None \<Rightarrow> country)
             else country
         | _ \<Rightarrow> country)"

definition PluginNfqueueHandler ::
  "(IP \<Rightarrow> bool) \<Rightarrow> (IP \<Rightarrow> string option) option \<Rightarrow> NfqueueHandlerFunction" where
  "PluginNfqueueHandler isPrivateIP geoDatabase mess ctid newSession =
     (let result = \<lparr>SessionRelease = False\<rparr>;
          release = [CallReleaseSession pluginName]
      in if \<not> newSession then (release, Returns result)
         else
           let srcAddr = (case IP4Layer mess of
                            Some ip4 \<Rightarrow> Some (v4SrcIP ip4)
                          | None \<Rightarrow> map_option v6SrcIP (IP6Layer mess));
               dstAddr = (case IP4Layer mess of
                            Some ip4 \<Rightarrow> Some (v4DstIP ip4)
                          | None \<Rightarrow> map_option v6DstIP (IP6Layer mess));
               clientCountry = geoCountry isPrivateIP geoDatabase srcAddr;
               serverCountry = geoCountry isPrivateIP geoDatabase dstAddr
           in (release @
               [CallAddSessionEntry ctid ''client_country'' (DString clientCountry),
                CallAddSessionEntry ctid ''server_country'' (DString serverCountry),
                CallPutAttachment ''client_country'' clientCountry,
                CallPutAttachment ''server_country'' serverCountry,
                CallLogEvent ''session_geoip''],
               Returns result))"

subsection \<open>The ruleset of the kernel\<close>

text \<open>
  The script \<^verbatim>\<open>insert_packetd_rules\<close> hands a list of rules to \<^verbatim>\<open>nft\<close>. The rules are
  data here, chain by chain in the order of the script, and a small interpreter gives them
  the meaning nftables gives them: the rules of a chain are tried in order; a rule whose
  matches all hold runs its statements in order; \<^verbatim>\<open>return\<close> ends the evaluation with
  the policy of the base chain, which is accept; \<^verbatim>\<open>goto\<close> continues in another chain
  and does not come back; \<^verbatim>\<open>queue\<close> hands the packet to userspace.

  What the rules look at in a packet: the addresses, the transport protocol and its
  destination port, the packet mark, the state, mark and packet count of the packet's
  conntrack entry, the address types of the routing table, and whether the dictionary
  holds \<^verbatim>\<open>bypass_packetd = true\<close> under the packet's conntrack id.
\<close>

datatype CtState = CtNew | CtEstablished | CtRelated | CtInvalid | CtUntracked

datatype L4Proto = ProtoTCP | ProtoUDP | ProtoOther

datatype FibType = FibUnicast | FibLocal | FibAnycast | FibBroadcast | FibMulticast

record KPacket =
  kSaddr :: IP
  kDaddr :: IP
  kProto :: L4Proto
  kDport :: "16 word"
  kMark :: "32 word"
  ctState :: CtState
  ctMark :: "32 word"
  ctPackets :: nat
  fibSaddr :: FibType
  fibDaddr :: FibType
  dictBypass :: bool

datatype ChainName = PacketdPrerouting | PacketdInput | PacketdOutput | PacketdQueue

datatype Match =
    CtStateIs CtState
  | UdpDport "16 word"
  | TcpDport "16 word"
  | SaddrIn "IP \<Rightarrow> bool"
  | DaddrIn "IP \<Rightarrow> bool"
  | DictBypassTrue
  | CtMarkAnd "32 word" "32 word"
  | FibSaddrType FibType
  | FibDaddrType FibType
  | CtPacketsGt nat

datatype Stmt =
    CtMarkSetOr "32 word"
  | MarkSetOr "32 word"
  | Counter
  | DictFlush
  | Return
  | Goto ChainName
  | QueueNum string string bool

type_synonym Rule = "Match list \<times> Stmt list"

datatype NftVerdict = NftAccept | NftQueue | NftLoop

fun matches :: "Match \<Rightarrow> KPacket \<Rightarrow> bool" where
  "matches (CtStateIs s) k = (ctState k = s)"
| "matches (UdpDport p) k = (kProto k = ProtoUDP \<and> kDport k = p)"
| "matches (TcpDport p) k = (kProto k = ProtoTCP \<and> kDport k = p)"
| "matches (SaddrIn net) k = net (kSaddr k)"
| "matches (DaddrIn net) k = net (kDaddr k)"
| "matches DictBypassTrue k = dictBypass k"
| "matches (CtMarkAnd bits v) k = (ctMark k AND bits = v)"
| "matches (FibSaddrType t) k = (fibSaddr k = t)"
| "matches (FibDaddrType t) k = (fibDaddr k = t)"
| "matches (CtPacketsGt n) k = (n < ctPackets k)"

text \<open>
  The statements of a rule, then the rest of the chain. The number bounds the nesting of
  \<^verbatim>\<open>goto\<close>; a ruleset that exhausts it gets the verdict \<open>NftLoop\<close>.
\<close>

fun runStmts :: "(ChainName \<Rightarrow> Rule list) \<Rightarrow> nat \<Rightarrow> Stmt list \<Rightarrow> Rule list \<Rightarrow> KPacket \<Rightarrow> NftVerdict \<times> KPacket"
  and runRules :: "(ChainName \<Rightarrow> Rule list) \<Rightarrow> nat \<Rightarrow> Rule list \<Rightarrow> KPacket \<Rightarrow> NftVerdict \<times> KPacket" where
  "runStmts cs n [] rest k = runRules cs n rest k"
| "runStmts cs n (CtMarkSetOr v # ss) rest k = runStmts cs n ss rest (k\<lparr>ctMark := ctMark k OR v\<rparr>)"
| "runStmts cs n (MarkSetOr v # ss) rest k = runStmts cs n ss rest (k\<lparr>kMark := kMark k OR v\<rparr>)"
| "runStmts cs n (Counter # ss) rest k = runStmts cs n ss rest k"
| "runStmts cs n (DictFlush # ss) rest k = runStmts cs n ss rest (k\<lparr>dictBypass := False\<rparr>)"
| "runStmts cs n (Return # ss) rest k = (NftAccept, k)"
| "runStmts cs 0 (Goto c # ss) rest k = (NftLoop, k)"
| "runStmts cs (Suc n) (Goto c # ss) rest k = runRules cs n (cs c) k"
| "runStmts cs n (QueueNum a b fanout # ss) rest k = (NftQueue, k)"
| "runRules cs n [] k = (NftAccept, k)"
| "runRules cs n ((ms, ss) # rest) k =
     (if list_all (\<lambda>m. matches m k) ms then runStmts cs n ss rest k else runRules cs n rest k)"

text \<open>
  The networks of the script: \<^verbatim>\<open>127.0.0.1/8\<close> on an IPv4 address, \<^verbatim>\<open>::1\<close> on an IPv6
  address.
\<close>

definition loopbackNet :: "IP \<Rightarrow> bool" where
  "loopbackNet a \<longleftrightarrow> length a = 4 \<and> hd a = 127"

definition loopbackHost6 :: "IP \<Rightarrow> bool" where
  "loopbackHost6 a \<longleftrightarrow> a = IPv6loopback"

text \<open>
  \<^verbatim>\<open>insert_packetd_rules\<close>: the rules of each chain after the script has run. The two
  positional arguments are the bounds of the queue range; \<open>devnet\<close> stands for the
  network in \<^verbatim>\<open>PACKETD_DEVNET\<close>, \<open>None\<close> when the variable is empty.
\<close>

definition insert_packetd_rules ::
  "(IP \<Rightarrow> bool) option \<Rightarrow> string \<Rightarrow> string \<Rightarrow> ChainName \<Rightarrow> Rule list" where
  "insert_packetd_rules devnet a1 a2 chain =
     (case chain of
        PacketdOutput \<Rightarrow>
          [([CtStateIs CtNew], [CtMarkSetOr 0x80000000]),
           ([], [Goto PacketdQueue])]
      | PacketdInput \<Rightarrow>
          [([UdpDport 53], [Return]),
           ([TcpDport 53], [Return]),
           ([CtStateIs CtNew], [CtMarkSetOr 0x80000000])]
      | PacketdPrerouting \<Rightarrow>
          [([], [Goto PacketdQueue])]
      | PacketdQueue \<Rightarrow>
          [([CtStateIs CtNew], [Counter, DictFlush]),
           ([SaddrIn loopbackNet], [Return]),
           ([DaddrIn loopbackNet], [Return]),
           ([SaddrIn loopbackHost6], [Return]),
           ([DaddrIn loopbackHost6], [Return])] @
          (case devnet of
             Some net \<Rightarrow> [([SaddrIn net], [Return]), ([DaddrIn net], [Return])]
           | None \<Rightarrow> []) @
          [([CtStateIs CtInvalid], [Return]),
           ([CtStateIs CtUntracked], [Return]),
           ([DictBypassTrue], [Counter, Return]),
           ([CtMarkAnd 0x80000000 0x80000000], [Counter, Return]),
           ([FibSaddrType FibAnycast], [Counter, Return]),
           ([FibDaddrType FibAnycast], [Counter, Return]),
           ([FibSaddrType FibBroadcast], [Counter, Return]),
           ([FibDaddrType FibBroadcast], [Counter, Return]),
           ([FibSaddrType FibMulticast], [Counter, Return]),
           ([FibDaddrType FibMulticast], [Counter, Return]),
           ([CtPacketsGt 256], [Counter, Return]),
           ([CtStateIs CtNew], [MarkSetOr 0x10000000]),
           ([], [Counter, QueueNum a1 a2 (a1 \<noteq> a2)])])"

text \<open>
  A packet at a hook runs the base chain of the hook. A locally generated packet passes
  the output hook; a packet for the host itself passes the prerouting hook and then,
  unless it was queued there, the input hook. The changes a chain makes to the conntrack
  mark are seen by the next chain.
\<close>

definition runHook ::
  "(IP \<Rightarrow> bool) option \<Rightarrow> string \<Rightarrow> string \<Rightarrow> ChainName \<Rightarrow> KPacket \<Rightarrow> NftVerdict \<times> KPacket" where
  "runHook devnet a1 a2 chain k =
     runRules (insert_packetd_rules devnet a1 a2) 1 (insert_packetd_rules devnet a1 a2 chain) k"

fun traverse ::
  "(IP \<Rightarrow> bool) option \<Rightarrow> string \<Rightarrow> string \<Rightarrow> ChainName list \<Rightarrow> KPacket \<Rightarrow> NftVerdict \<times> KPacket" where
  "traverse devnet a1 a2 [] k = (NftAccept, k)"
| "traverse devnet a1 a2 (hook # hooks) k =
     (case runHook devnet a1 a2 hook k of
        (NftAccept, k1) \<Rightarrow> traverse devnet a1 a2 hooks k1
      | (v, k1) \<Rightarrow> (v, k1))"

definition localOutbound :: "ChainName list" where
  "localOutbound = [PacketdOutput]"

definition localInbound :: "ChainName list" where
  "localInbound = [PacketdPrerouting, PacketdInput]"

subsection \<open>Sample plugins, packets and worlds\<close>

text \<open>
  Handlers: one that returns without releasing, one that returns with
  \<^verbatim>\<open>SessionRelease\<close> set, one that never returns. Subscriptions at a given priority.
\<close>

definition keepHandler :: NfqueueHandlerFunction where
  "keepHandler mess ctid newSession = ([], Returns \<lparr>SessionRelease = False\<rparr>)"

definition releaseHandler :: NfqueueHandlerFunction where
  "releaseHandler mess ctid newSession = ([], Returns \<lparr>SessionRelease = True\<rparr>)"

definition sleepHandler :: NfqueueHandlerFunction where
  "sleepHandler mess ctid newSession = ([], NeverReturns)"

definition geoipHandler :: NfqueueHandlerFunction where
  "geoipHandler = PluginNfqueueHandler (\<lambda>ip. False) None"

definition subscription :: "string \<Rightarrow> int \<Rightarrow> NfqueueHandlerFunction \<Rightarrow> string \<times> SubscriptionHolder" where
  "subscription name pri f = (name, \<lparr>Owner = name, Priority = pri, NfqueueFunc = f\<rparr>)"

text \<open>The daemon after startup with the given subscribers: no session, empty tables.\<close>

definition startWorld :: "Subscriptions \<Rightarrow> World" where
  "startWorld subs =
     \<lparr>heap = (\<lambda>a. zeroSession), heapNext = 0, sessionTable = Map.empty,
      conntrackTable = Map.empty, sessionIndex = 1, nfqueueList = subs,
      dictSessions = (\<lambda>ctid. Map.empty), clockReadings = (\<lambda>n. 1000 + n), clockTicks = 0,
      logged = [], invoked = []\<rparr>"

text \<open>
  A TCP packet from 10.0.0.5:54321 to 93.184.216.34:443, one from 10.0.0.6 on the same
  ports, a packet without an IP layer and a loopback packet.
\<close>

definition tcpPacket :: Packet where
  "tcpPacket =
     \<lparr>LayerIPv4 = Some \<lparr>v4Protocol = 6, v4SrcIP = [10, 0, 0, 5], v4DstIP = [93, 184, 216, 34]\<rparr>,
      LayerIPv6 = None,
      LayerTCP = Some \<lparr>tcpSrcPort = 54321, tcpDstPort = 443, RST = False, FIN = False\<rparr>,
      LayerUDP = None, ApplicationLayer = None\<rparr>"

definition otherPacket :: Packet where
  "otherPacket =
     \<lparr>LayerIPv4 = Some \<lparr>v4Protocol = 6, v4SrcIP = [10, 0, 0, 6], v4DstIP = [93, 184, 216, 34]\<rparr>,
      LayerIPv6 = None,
      LayerTCP = Some \<lparr>tcpSrcPort = 54321, tcpDstPort = 443, RST = False, FIN = False\<rparr>,
      LayerUDP = None, ApplicationLayer = None\<rparr>"

definition arpPacket :: Packet where
  "arpPacket =
     \<lparr>LayerIPv4 = None, LayerIPv6 = None, LayerTCP = None, LayerUDP = None,
      ApplicationLayer = None\<rparr>"

definition loopbackPacket :: Packet where
  "loopbackPacket =
     \<lparr>LayerIPv4 = Some \<lparr>v4Protocol = 6, v4SrcIP = [127, 0, 0, 1], v4DstIP = [127, 0, 0, 1]\<rparr>,
      LayerIPv6 = None,
      LayerTCP = Some \<lparr>tcpSrcPort = 54321, tcpDstPort = 443, RST = False, FIN = False\<rparr>,
      LayerUDP = None, ApplicationLayer = None\<rparr>"

text \<open>
  A world with one session: the daemon after startup with the given subscribers, and
  a session created for ctid 7 from the TCP packet's message.
\<close>

definition tcpMessage :: NfqueueMessage where
  "tcpMessage = upperLayers (the (ipLayers (newMessage 2 tcpPacket 60 0x10000000)))"

definition sessionWorld :: "Subscriptions \<Rightarrow> World" where
  "sessionWorld subs = snd (createSession tcpMessage 7 (startWorld subs))"

text \<open>The messages of the other packet and of the loopback packet.\<close>

definition otherMessage :: NfqueueMessage where
  "otherMessage = upperLayers (the (ipLayers (newMessage 2 otherPacket 60 0x10000000)))"

definition loopbackMessage :: NfqueueMessage where
  "loopbackMessage = upperLayers (the (ipLayers (newMessage 2 loopbackPacket 60 0x10000000)))"


text \<open>
  Runs on the sample worlds: a first packet with a subscriber at priority 3 that never
  returns and one at priority 5; a packet of a session whose only subscriber is the geoip
  plugin; and a mid-flow packet for ctid 7 followed, with the dictionary left as it is, by
  a first packet for the same ctid.
\<close>

definition timeoutRun :: "Outcome \<times> World" where
  "timeoutRun =
     nfqueueCallback 7 2 tcpPacket 60 0x10000000
       (startWorld [subscription ''slow'' 3 sleepHandler, subscription ''late'' 5 keepHandler])"

definition geoipRun :: "Outcome \<times> World" where
  "geoipRun =
     callSubscribers 7 0 (tcpMessage\<lparr>Session := Some 0\<rparr>) 0 False
       (sessionWorld [subscription ''geoip'' 0 geoipHandler])"

definition reuseRun :: "Outcome \<times> World" where
  "reuseRun =
     nfqueueCallback 7 2 tcpPacket 60 0x10000000
       (snd (nfqueueCallback 7 2 tcpPacket 60 0 (startWorld [subscription ''a'' 0 keepHandler])))"

text \<open>
  The priority walk of a session whose only subscriber has priority 100, and of one whose
  only subscriber has priority 0.
\<close>

definition lastTierRun :: "Outcome option \<times> nat \<times> World" where
  "lastTierRun =
     priorityWalk 7 0 (tcpMessage\<lparr>Session := Some 0\<rparr>) False [subscription ''late'' 100 keepHandler] 0 0 0
       (sessionWorld [subscription ''late'' 100 keepHandler])"

definition firstTierRun :: "Outcome option \<times> nat \<times> World" where
  "firstTierRun =
     priorityWalk 7 0 (tcpMessage\<lparr>Session := Some 0\<rparr>) False [subscription ''a'' 0 keepHandler] 0 0 0
       (sessionWorld [subscription ''a'' 0 keepHandler])"

text \<open>
  A session with three subscribers: the geoip plugin at priority 0, a plugin that keeps
  its subscription at priority 1 and one that returns with \<^verbatim>\<open>SessionRelease\<close> set at
  priority 2. One invocation of the geoip handler on a packet of the session, and the
  whole pipeline on it.
\<close>

definition mixedSubs :: Subscriptions where
  "mixedSubs =
     [subscription ''geoip'' 0 geoipHandler, subscription ''a'' 1 keepHandler,
      subscription ''b'' 2 releaseHandler]"

definition geoipTask :: "TaskEnd \<times> World" where
  "geoipTask =
     pluginTask ''geoip'' (snd (subscription ''geoip'' 0 geoipHandler)) (tcpMessage\<lparr>Session := Some 0\<rparr>) 7 False
       (sessionWorld mixedSubs)"

definition mixedRun :: "Outcome \<times> World" where
  "mixedRun = callSubscribers 7 0 (tcpMessage\<lparr>Session := Some 0\<rparr>) 0 False (sessionWorld mixedSubs)"




text \<open>The first packet of an ssh connection from 192.0.2.1 to the host, 198.51.100.7.\<close>

definition sshSyn :: KPacket where
  "sshSyn =
     \<lparr>kSaddr = [192, 0, 2, 1], kDaddr = [198, 51, 100, 7], kProto = ProtoTCP, kDport = 22,
      kMark = 0, ctState = CtNew, ctMark = 0, ctPackets = 1, fibSaddr = FibUnicast,
      fibDaddr = FibLocal, dictBypass = False\<rparr>"

subsection \<open>Notions used in the statements\<close>

text \<open>
  The message the callback has built when it looks for the session of the packet:
  \<open>None\<close> where it has returned before, for a packet with neither an IPv4 nor an IPv6
  layer and for a packet with a loopback address.
\<close>

definition parsed :: "32 word \<Rightarrow> Packet \<Rightarrow> int \<Rightarrow> 32 word \<Rightarrow> NfqueueMessage option" where
  "parsed family' packet packetLength pmark =
     (case ipLayers (newMessage family' packet packetLength pmark) of
        None \<Rightarrow> None
      | Some mess \<Rightarrow>
          if IsLoopback (ClientAddress (MsgTuple mess)) \<or> IsLoopback (ServerAddress (MsgTuple mess))
          then None
          else Some (upperLayers mess))"

text \<open>
  A result on the results channel comes from a handler of the tier that returned, and
  carries the owner's key and the flag of the handler's result.
\<close>

definition fromTier :: "Subscriptions \<Rightarrow> NfqueueMessage \<Rightarrow> 32 word \<Rightarrow> bool \<Rightarrow> subscriberResult \<Rightarrow> bool" where
  "fromTier tier mess ctid ns r \<longleftrightarrow>
     (\<exists>val res. (owner r, val) \<in> set tier \<and> snd (NfqueueFunc val mess ctid ns) = Returns res \<and>
        sessionRelease r = SessionRelease res)"


text \<open>
  What the plugin pipeline can change: the subscriptions (which only shrink) and the
  attachments of sessions, the dictionary (whose entries are set, never removed), the log
  and the record of invocations. Everything else stays as it is.
\<close>

definition pluginFrame :: "World \<Rightarrow> World \<Rightarrow> bool" where
  "pluginFrame w w' \<longleftrightarrow>
     heapNext w' = heapNext w \<and> sessionTable w' = sessionTable w \<and>
     conntrackTable w' = conntrackTable w \<and> sessionIndex w' = sessionIndex w \<and>
     nfqueueList w' = nfqueueList w \<and> clockReadings w' = clockReadings w \<and>
     clockTicks w' = clockTicks w \<and>
     (\<forall>a. (heap w' a)\<lparr>subscriptions := [], attachments := Map.empty\<rparr> =
           (heap w a)\<lparr>subscriptions := [], attachments := Map.empty\<rparr> \<and>
          set (subscriptions (heap w' a)) \<subseteq> set (subscriptions (heap w a))) \<and>
     (\<forall>c. dom (dictSessions w c) \<subseteq> dom (dictSessions w' c))"

text \<open>The subscribers counted when the walk reaches a priority: those of the priorities from 0 up to it.\<close>

definition called :: "Subscriptions \<Rightarrow> int \<Rightarrow> nat" where
  "called sublist p = length (filter (\<lambda>kv. 0 \<le> Priority (snd kv) \<and> Priority (snd kv) < p) sublist)"


text \<open>
  The invocations a call of the dispatcher adds are for its ctid and carry its value of
  \<^verbatim>\<open>newSession\<close>.
\<close>

definition invokedWith :: "32 word \<Rightarrow> bool \<Rightarrow> World \<Rightarrow> World \<Rightarrow> bool" where
  "invokedWith ctid ns w w' \<longleftrightarrow>
     (\<exists>es. invoked w' = invoked w @ es \<and> (\<forall>e\<in>set es. snd e = (ctid, ns)))"

text \<open>
  The channels by which the handlers of a subscription list bear on the bypass of a flow
  when they are invoked on a message: the handler subscribed under an owner returns with
  \<^verbatim>\<open>SessionRelease\<close> set; a handler calls \<^verbatim>\<open>ReleaseSession\<close> for an owner; a handler
  writes the \<^verbatim>\<open>bypass_packetd\<close> field under a ctid.
\<close>

definition returnsRelease :: "Subscriptions \<Rightarrow> NfqueueMessage \<Rightarrow> 32 word \<Rightarrow> bool \<Rightarrow> string \<Rightarrow> bool" where
  "returnsRelease subs mess ctid ns k \<longleftrightarrow>
     (\<exists>kv\<in>set subs. fst kv = k \<and>
        (case snd (NfqueueFunc (snd kv) mess ctid ns) of
           Returns res \<Rightarrow> SessionRelease res
         | NeverReturns \<Rightarrow> False))"

definition callsRelease :: "Subscriptions \<Rightarrow> NfqueueMessage \<Rightarrow> 32 word \<Rightarrow> bool \<Rightarrow> string \<Rightarrow> bool" where
  "callsRelease subs mess ctid ns k \<longleftrightarrow>
     (\<exists>kv\<in>set subs. CallReleaseSession k \<in> set (fst (NfqueueFunc (snd kv) mess ctid ns)))"

fun writesEntry :: "32 word \<Rightarrow> PluginAction \<Rightarrow> bool" where
  "writesEntry c (CallAddSessionEntry ctid field v) = (ctid = c \<and> field = ''bypass_packetd'')"
| "writesEntry c (CallReleaseSession owner') = False"
| "writesEntry c (CallPutAttachment k v) = False"
| "writesEntry c (CallLogEvent e) = False"

definition writesBypassEntry :: "Subscriptions \<Rightarrow> NfqueueMessage \<Rightarrow> 32 word \<Rightarrow> bool \<Rightarrow> 32 word \<Rightarrow> bool" where
  "writesBypassEntry subs mess ctid ns c \<longleftrightarrow>
     (\<exists>kv\<in>set subs. \<exists>act\<in>set (fst (NfqueueFunc (snd kv) mess ctid ns)). writesEntry c act)"

text \<open>
  The changes between two worlds that bear on the bypass are accounted for: conntrack
  ids stay, subscription sets only shrink, a subscription is gone only where \<open>rel\<close>
  allows it for the session and the owner, and a \<^verbatim>\<open>bypass_packetd\<close> entry differs only
  under a ctid that \<open>wr\<close> names or under the conntrack id of a session among \<open>ses\<close>
  whose subscription set is empty afterwards.
\<close>

definition accounted :: "(nat \<Rightarrow> string \<Rightarrow> bool) \<Rightarrow> (32 word \<Rightarrow> bool) \<Rightarrow> (nat \<Rightarrow> bool) \<Rightarrow> World \<Rightarrow> World \<Rightarrow> bool" where
  "accounted rel wr ses u u' \<longleftrightarrow>
     (\<forall>a. conntrackID (heap u' a) = conntrackID (heap u a)) \<and>
     (\<forall>a. set (subscriptions (heap u' a)) \<subseteq> set (subscriptions (heap u a))) \<and>
     (\<forall>a kv. kv \<in> set (subscriptions (heap u a)) \<longrightarrow> kv \<notin> set (subscriptions (heap u' a)) \<longrightarrow>
        rel a (fst kv)) \<and>
     (\<forall>c. dictSessions u' c ''bypass_packetd'' \<noteq> dictSessions u c ''bypass_packetd'' \<longrightarrow>
        wr c \<or> (\<exists>a. ses a \<and> conntrackID (heap u a) = c \<and> subscriptions (heap u' a) = []))"

text \<open>
  The converse of the bypass protocol as a property of the world: where the dictionary
  holds \<^verbatim>\<open>bypass_packetd = true\<close> under a ctid, the session table has no session for the
  ctid or that session has no subscriptions.
\<close>

definition bypassSound :: "World \<Rightarrow> bool" where
  "bypassSound w \<longleftrightarrow>
     (\<forall>c a. dictSessions w c ''bypass_packetd'' = Some (DBool True) \<longrightarrow>
            sessionTable w c = Some a \<longrightarrow> subscriptions (heap w a) = [])"






section \<open>Properties\<close>

declare priorityWalk.simps [simp del]

subsection \<open>The fields of the world after each step\<close>

lemma deleteKey_Nil [simp]: "deleteKey k [] = []"
  by (simp add: deleteKey_def)

lemma ReleaseSession_heap:
  "heap (ReleaseSession a k w) =
     (heap w)(a := (heap w a)\<lparr>subscriptions := deleteKey k (subscriptions (heap w a))\<rparr>)"
  by (auto simp: ReleaseSession_def Let_def updSession_def logger_def AddSessionEntry_def fun_eq_iff)

lemma ReleaseSession_dict:
  "dictSessions (ReleaseSession a k w) =
     (if subscriptions (heap w a) \<noteq> [] \<and> deleteKey k (subscriptions (heap w a)) = []
      then (dictSessions w)(conntrackID (heap w a) :=
             (dictSessions w (conntrackID (heap w a)))(''bypass_packetd'' \<mapsto> DBool True))
      else dictSessions w)"
  by (auto simp: ReleaseSession_def Let_def updSession_def logger_def AddSessionEntry_def)

lemma ReleaseSession_other:
  "heapNext (ReleaseSession a k w) = heapNext w"
  "sessionTable (ReleaseSession a k w) = sessionTable w"
  "conntrackTable (ReleaseSession a k w) = conntrackTable w"
  "sessionIndex (ReleaseSession a k w) = sessionIndex w"
  "nfqueueList (ReleaseSession a k w) = nfqueueList w"
  "clockReadings (ReleaseSession a k w) = clockReadings w"
  "clockTicks (ReleaseSession a k w) = clockTicks w"
  "invoked (ReleaseSession a k w) = invoked w"
  by (simp_all add: ReleaseSession_def Let_def updSession_def logger_def AddSessionEntry_def)

lemma createSession_eq:
  "createSession mess ctid w =
     (heapNext w,
      w\<lparr>heap := (heap w)(heapNext w :=
           zeroSession\<lparr>sessionID := sessionIndex w, conntrackID := ctid,
             creationTime := clockReadings w (clockTicks w), packetCount := 1,
             byteCount := word_of_int (Length mess), eventCount := 1,
             lastActivityTime := clockReadings w (clockTicks w + 1),
             clientSideTuple := MsgTuple mess, family := word_of_int (Family mess),
             conntrackConfirmed := False, attachments := Map.empty,
             subscriptions := nfqueueList w\<rparr>),
        heapNext := heapNext w + 1,
        sessionIndex := sessionIndex w + 1,
        clockTicks := clockTicks w + 2,
        sessionTable := (sessionTable w)(ctid \<mapsto> heapNext w)\<rparr>)"
  by (simp add: createSession_def Let_def updSession_def nextSessionID_def timeNow_def
        AttachNfqueueSubscriptions_def insertSessionTable_def zeroSession_def cong: let_weak_cong)

lemma conntrackCheck_fields:
  "heap (conntrackCheck ctid ns w) = heap w"
  "heapNext (conntrackCheck ctid ns w) = heapNext w"
  "sessionTable (conntrackCheck ctid ns w) = sessionTable w"
  "dictSessions (conntrackCheck ctid ns w) = dictSessions w"
  "nfqueueList (conntrackCheck ctid ns w) = nfqueueList w"
  "invoked (conntrackCheck ctid ns w) = invoked w"
  "clockReadings (conntrackCheck ctid ns w) = clockReadings w"
  "clockTicks (conntrackCheck ctid ns w) = clockTicks w"
  "conntrackTable (conntrackCheck ctid ns w) =
     (if ns then (conntrackTable w)(ctid := None) else conntrackTable w)"
  by (simp_all add: conntrackCheck_def removeConntrack_def findConntrack_def logger_def
        split: option.splits)

lemma interfaceAttribution_fields:
  "heapNext (interfaceAttribution a ns mess pmark w) = heapNext w"
  "sessionTable (interfaceAttribution a ns mess pmark w) = sessionTable w"
  "conntrackTable (interfaceAttribution a ns mess pmark w) = conntrackTable w"
  "dictSessions (interfaceAttribution a ns mess pmark w) = dictSessions w"
  "nfqueueList (interfaceAttribution a ns mess pmark w) = nfqueueList w"
  "invoked (interfaceAttribution a ns mess pmark w) = invoked w"
  "clockReadings (interfaceAttribution a ns mess pmark w) = clockReadings w"
  "clockTicks (interfaceAttribution a ns mess pmark w) = clockTicks w"
  by (simp_all add: interfaceAttribution_def updSession_def Let_def)

lemma interfaceAttribution_heap:
  "b \<noteq> a \<Longrightarrow> heap (interfaceAttribution a ns mess pmark w) b = heap w b"
  "subscriptions (heap (interfaceAttribution a ns mess pmark w) b) = subscriptions (heap w b)"
  "conntrackID (heap (interfaceAttribution a ns mess pmark w) b) = conntrackID (heap w b)"
  "creationTime (heap (interfaceAttribution a ns mess pmark w) b) = creationTime (heap w b)"
  "clientSideTuple (heap (interfaceAttribution a ns mess pmark w) b) = clientSideTuple (heap w b)"
  "packetCount (heap (interfaceAttribution a ns mess pmark w) b) = packetCount (heap w b)"
  by (simp_all add: interfaceAttribution_def updSession_def Let_def)

lemma accounting_fields:
  "heapNext (accounting a mess w) = heapNext w"
  "sessionTable (accounting a mess w) = sessionTable w"
  "conntrackTable (accounting a mess w) = conntrackTable w"
  "dictSessions (accounting a mess w) = dictSessions w"
  "nfqueueList (accounting a mess w) = nfqueueList w"
  "invoked (accounting a mess w) = invoked w"
  "clockReadings (accounting a mess w) = clockReadings w"
  by (simp_all add: accounting_def updSession_def Let_def timeNow_def logger_def)

lemma accounting_heap:
  "b \<noteq> a \<Longrightarrow> heap (accounting a mess w) b = heap w b"
  "subscriptions (heap (accounting a mess w) b) = subscriptions (heap w b)"
  "conntrackID (heap (accounting a mess w) b) = conntrackID (heap w b)"
  "creationTime (heap (accounting a mess w) b) = creationTime (heap w b)"
  "clientSideTuple (heap (accounting a mess w) b) = clientSideTuple (heap w b)"
  "packetCount (heap (accounting a mess w) a) = packetCount (heap w a) + 1"
  by (simp_all add: accounting_def updSession_def Let_def timeNow_def logger_def)

lemma direction_Session: "Session (direction a mess w) = Session mess"
  by (simp add: direction_def)

lemmas step_fields = conntrackCheck_fields interfaceAttribution_fields interfaceAttribution_heap
  accounting_fields accounting_heap direction_Session

lemma packetAccounting_other:
  "heapNext (snd (packetAccounting ctid a ns mess pmark w)) = heapNext w"
  "sessionTable (snd (packetAccounting ctid a ns mess pmark w)) = sessionTable w"
  "dictSessions (snd (packetAccounting ctid a ns mess pmark w)) = dictSessions w"
  "nfqueueList (snd (packetAccounting ctid a ns mess pmark w)) = nfqueueList w"
  "invoked (snd (packetAccounting ctid a ns mess pmark w)) = invoked w"
  "clockReadings (snd (packetAccounting ctid a ns mess pmark w)) = clockReadings w"
  "Session (fst (packetAccounting ctid a ns mess pmark w)) = Some a"
  "conntrackTable (snd (packetAccounting ctid a ns mess pmark w)) =
     (if ns then (conntrackTable w)(ctid := None) else conntrackTable w)"
  by (simp_all add: packetAccounting_def Let_def step_fields)

lemma packetAccounting_heap:
  "b \<noteq> a \<Longrightarrow> heap (snd (packetAccounting ctid a ns mess pmark w)) b = heap w b"
  "subscriptions (heap (snd (packetAccounting ctid a ns mess pmark w)) b) = subscriptions (heap w b)"
  "conntrackID (heap (snd (packetAccounting ctid a ns mess pmark w)) b) = conntrackID (heap w b)"
  "creationTime (heap (snd (packetAccounting ctid a ns mess pmark w)) b) = creationTime (heap w b)"
  "clientSideTuple (heap (snd (packetAccounting ctid a ns mess pmark w)) b) = clientSideTuple (heap w b)"
  "packetCount (heap (snd (packetAccounting ctid a ns mess pmark w)) a) = packetCount (heap w a) + 1"
  by (simp_all add: packetAccounting_def Let_def step_fields)


lemma parsed_None:
  "parsed family' packet packetLength pmark = None \<Longrightarrow>
     fst (nfqueueCallback ctid family' packet packetLength pmark w) = Returned NfAccept \<and>
     (snd (nfqueueCallback ctid family' packet packetLength pmark w))\<lparr>logged := logged w\<rparr> = w"
  by (auto simp: parsed_def nfqueueCallback_def logger_def split: option.splits if_splits)

lemma parsed_Some:
  "parsed family' packet packetLength pmark = Some mess \<Longrightarrow>
     nfqueueCallback ctid family' packet packetLength pmark w =
       (case sessionResolution ctid mess (pmark AND 0x10000000 \<noteq> 0) w of
          Inl early \<Rightarrow> early
        | Inr (session, newSession, w1) \<Rightarrow>
            callSubscribers ctid session
              (fst (packetAccounting ctid session newSession mess pmark w1)) pmark newSession
              (snd (packetAccounting ctid session newSession mess pmark w1)))"
  by (auto simp: parsed_def nfqueueCallback_def Let_def split: option.splits if_splits sum.splits prod.splits)

subsection \<open>A relation kept by every step of the plugin pipeline is kept by the pipeline\<close>

lemma runActions_rel:
  assumes refl: "\<And>w. R w w" and trans: "\<And>a b c. R a b \<Longrightarrow> R b c \<Longrightarrow> R a c"
    and run: "runActions s acts w = (ok, w')"
    and act: "\<And>act w ok w'. act \<in> set acts \<Longrightarrow> runAction s act w = (ok, w') \<Longrightarrow> R w w'"
  shows "R w w'"
  using run act
proof (induction acts arbitrary: w)
  case Nil
  then show ?case by (simp add: refl)
next
  case (Cons a acts)
  obtain ok1 w1 where r: "runAction s a w = (ok1, w1)" by (cases "runAction s a w")
  have s1: "R w w1" using Cons.prems(2) [of a w ok1 w1] r by simp
  show ?case
  proof (cases ok1)
    case True
    with Cons.prems(1) r have run1: "runActions s acts w1 = (ok, w')" by simp
    have "R w1 w'"
    proof (rule Cons.IH [OF run1])
      fix act w ok w'
      assume "act \<in> set acts" "runAction s act w = (ok, w')"
      then show "R w w'" using Cons.prems(2) [of act w ok w'] by simp
    qed
    with s1 show ?thesis by (rule trans)
  next
    case False
    with Cons.prems(1) r have "w' = w1" by simp
    with s1 show ?thesis by simp
  qed
qed

lemma pluginTask_rel:
  assumes refl: "\<And>w. R w w" and trans: "\<And>a b c. R a b \<Longrightarrow> R b c \<Longrightarrow> R a c"
    and pt: "pluginTask key val mess ctid ns w = (e, w')"
    and act: "\<And>act w ok w'. act \<in> set (fst (NfqueueFunc val mess ctid ns)) \<Longrightarrow>
                runAction (Session mess) act w = (ok, w') \<Longrightarrow> R w w'"
    and log: "\<And>l w. R w (logger l w)"
    and inv: "\<And>w. R w (w\<lparr>invoked := invoked w @ [(key, ctid, ns)]\<rparr>)"
  shows "R w w'"
proof -
  obtain acts fin where h: "NfqueueFunc val mess ctid ns = (acts, fin)"
    by (cases "NfqueueFunc val mess ctid ns")
  obtain ok w1 where ra: "runActions (Session mess) acts (w\<lparr>invoked := invoked w @ [(key, ctid, ns)]\<rparr>) = (ok, w1)"
    by (cases "runActions (Session mess) acts (w\<lparr>invoked := invoked w @ [(key, ctid, ns)]\<rparr>)")
  have "R (w\<lparr>invoked := invoked w @ [(key, ctid, ns)]\<rparr>) w1"
  proof (rule runActions_rel [of R, OF refl trans ra])
    fix act w ok w'
    assume "act \<in> set acts" "runAction (Session mess) act w = (ok, w')"
    then show "R w w'" using act [of act w ok w'] h by simp
  qed
  then have r1: "R w w1" using inv trans by blast
  have "w' = w1 \<or> (\<exists>l. w' = logger l w1)"
    using pt h ra by (auto simp: pluginTask_def split: if_splits HandlerEnd.splits)
  then show "R w w'" using r1 log trans by blast
qed

lemma pluginTask_Sent:
  "pluginTask key val mess ctid ns w = (Sent r, w') \<Longrightarrow>
     owner r = key \<and> (\<exists>res. snd (NfqueueFunc val mess ctid ns) = Returns res \<and> sessionRelease r = SessionRelease res)"
  by (auto simp: pluginTask_def Let_def split: prod.splits if_splits HandlerEnd.splits)

lemma spawnTier_rel:
  assumes refl: "\<And>w. R w w" and trans: "\<And>a b c. R a b \<Longrightarrow> R b c \<Longrightarrow> R a c"
    and st: "spawnTier tier mess ctid ns w = (ends, w')"
    and act: "\<And>key val act w ok w'. (key, val) \<in> set tier \<Longrightarrow>
                act \<in> set (fst (NfqueueFunc val mess ctid ns)) \<Longrightarrow>
                runAction (Session mess) act w = (ok, w') \<Longrightarrow> R w w'"
    and log: "\<And>l w. R w (logger l w)"
    and inv: "\<And>key w. R w (w\<lparr>invoked := invoked w @ [(key, ctid, ns)]\<rparr>)"
  shows "R w w' \<and> (\<forall>r\<in>set (resultsChannel ends). fromTier tier mess ctid ns r)"
  using st act
proof (induction tier arbitrary: w ends w')
  case Nil
  then show ?case by (simp add: refl)
next
  case (Cons kv tier)
  obtain key val where kv: "kv = (key, val)" by (cases kv)
  obtain e w1 where pt: "pluginTask key val mess ctid ns w = (e, w1)"
    by (cases "pluginTask key val mess ctid ns w")
  have r1: "R w w1"
  proof (rule pluginTask_rel [of R, OF refl trans pt _ log inv])
    fix act w ok w'
    assume "act \<in> set (fst (NfqueueFunc val mess ctid ns))" "runAction (Session mess) act w = (ok, w')"
    then show "R w w'" using Cons.prems(2) [of key val act w ok w'] kv by simp
  qed
  show ?case
  proof (cases "e = Crashed")
    case True
    with Cons.prems(1) kv pt have "w' = w1" "ends = [Crashed]" by auto
    with r1 show ?thesis by simp
  next
    case False
    obtain es w2 where st: "spawnTier tier mess ctid ns w1 = (es, w2)"
      by (cases "spawnTier tier mess ctid ns w1")
    from False Cons.prems(1) kv pt st have eq: "ends = e # es" "w' = w2"
      by (auto split: TaskEnd.splits)
    have ih: "R w1 w2 \<and> (\<forall>r\<in>set (resultsChannel es). fromTier tier mess ctid ns r)"
    proof (rule Cons.IH [OF st])
      fix key val act w ok w'
      assume "(key, val) \<in> set tier" "act \<in> set (fst (NfqueueFunc val mess ctid ns))"
        "runAction (Session mess) act w = (ok, w')"
      then show "R w w'" using Cons.prems(2) [of key val act w ok w'] by simp
    qed
    have mono: "\<And>r. fromTier tier mess ctid ns r \<Longrightarrow> fromTier (kv # tier) mess ctid ns r"
      by (auto simp: fromTier_def)
    have hd: "\<And>r. e = Sent r \<Longrightarrow> fromTier (kv # tier) mess ctid ns r"
      using pluginTask_Sent [of key val mess ctid ns w _ w1] pt kv
      by (auto simp: fromTier_def)
    have "\<forall>r\<in>set (resultsChannel (e # es)). fromTier (kv # tier) mess ctid ns r"
      using ih mono hd by (cases e) auto
    with ih r1 eq show ?thesis using trans by blast
  qed
qed

lemma collectResults_rel:
  assumes refl: "\<And>w. R w w" and trans: "\<And>a b c. R a b \<Longrightarrow> R b c \<Longrightarrow> R a c"
    and cr: "collectResults session hitcount chan w = (ok, w')"
    and rel: "\<And>r w. r \<in> set chan \<Longrightarrow> sessionRelease r \<Longrightarrow> R w (ReleaseSession session (owner r) w)"
  shows "R w w'"
  using cr rel
proof (induction session hitcount chan w rule: collectResults.induct)
  case (1 session chan w)
  then show ?case by (simp add: refl)
next
  case (2 session i w)
  then show ?case by (simp add: refl)
next
  case (3 session i result chan w)
  let ?w1 = "if sessionRelease result then ReleaseSession session (owner result) w else w"
  have s1: "R w ?w1" using "3.prems"(2) [of result w] refl by simp
  have "R ?w1 w'"
  proof (rule "3.IH")
    show "collectResults session i chan ?w1 = (ok, w')" using "3.prems"(1) by simp
  next
    fix r w
    assume "r \<in> set chan" "sessionRelease r"
    then show "R w (ReleaseSession session (owner r) w)" using "3.prems"(2) [of r w] by simp
  qed
  with s1 show ?case by (rule trans)
qed

lemma priorityWalk_rel:
  assumes refl: "\<And>w. R w w" and trans: "\<And>a b c. R a b \<Longrightarrow> R b c \<Longrightarrow> R a c"
    and pw: "priorityWalk ctid session mess ns sublist subcount priority n w = (r, n', w')"
    and act: "\<And>key val act w ok w'. (key, val) \<in> set sublist \<Longrightarrow>
                act \<in> set (fst (NfqueueFunc val mess ctid ns)) \<Longrightarrow>
                runAction (Session mess) act w = (ok, w') \<Longrightarrow> R w w'"
    and rel: "\<And>key val res w. (key, val) \<in> set sublist \<Longrightarrow>
                snd (NfqueueFunc val mess ctid ns) = Returns res \<Longrightarrow> SessionRelease res \<Longrightarrow>
                R w (ReleaseSession session key w)"
    and log: "\<And>l w. R w (logger l w)"
    and inv: "\<And>key w. R w (w\<lparr>invoked := invoked w @ [(key, ctid, ns)]\<rparr>)"
  shows "R w w'"
  using pw
proof (induction "nat (101 - priority)" arbitrary: subcount priority n w rule: less_induct)
  case less
  note pw = less.prems
  show ?case
  proof (cases "subcount = length sublist")
    case True
    with pw show ?thesis by (simp add: priorityWalk.simps refl)
  next
    case False
    let ?tier = "filter (\<lambda>kv. Priority (snd kv) = priority) sublist"
    obtain ends w1 where st: "spawnTier ?tier mess ctid ns w = (ends, w1)"
      by (cases "spawnTier ?tier mess ctid ns w")
    have st_rel: "R w w1 \<and> (\<forall>r\<in>set (resultsChannel ends). fromTier ?tier mess ctid ns r)"
    proof (rule spawnTier_rel [of R, OF refl trans st _ log inv])
      fix key val act' w ok w'
      assume "(key, val) \<in> set ?tier" "act' \<in> set (fst (NfqueueFunc val mess ctid ns))"
        "runAction (Session mess) act' w = (ok, w')"
      then show "R w w'" using act [of key val act' w ok w'] by simp
    qed
    show ?thesis
    proof (cases "Crashed \<in> set ends")
      case True
      with pw False st have "w' = w1" by (simp add: priorityWalk.simps Let_def)
      with st_rel show ?thesis by simp
    next
      case nc: False
      obtain ok w2 where cr: "collectResults session (length ?tier) (resultsChannel ends) w1 = (ok, w2)"
        by (cases "collectResults session (length ?tier) (resultsChannel ends) w1")
      have cr_rel: "R w1 w2"
      proof (rule collectResults_rel [of R, OF refl trans cr])
        fix r w
        assume "r \<in> set (resultsChannel ends)" "sessionRelease r"
        with st_rel have "fromTier ?tier mess ctid ns r" "sessionRelease r" by auto
        then show "R w (ReleaseSession session (owner r) w)"
          using rel by (auto simp: fromTier_def)
      qed
      have r12: "R w w2" using st_rel cr_rel trans by blast
      show ?thesis
      proof (cases ok)
        case ok: False
        with pw False st nc cr have "w' = w2" by (simp add: priorityWalk.simps Let_def)
        with r12 show ?thesis by simp
      next
        case ok: True
        show ?thesis
        proof (cases "priority + 1 > 100")
          case True
          with pw False st nc cr ok have "\<exists>l. w' = logger l w2"
            by (auto simp: priorityWalk.simps Let_def)
          with r12 show ?thesis using log trans by blast
        next
          case p: False
          have rec: "priorityWalk ctid session mess ns sublist (subcount + length ?tier) (priority + 1) (n + 1) w2 = (r, n', w')"
            using pw False st nc cr ok p by (simp add: priorityWalk.simps Let_def)
          have "nat (101 - (priority + 1)) < nat (101 - priority)" using p by simp
          then have "R w2 w'" using less.hyps rec by blast
          with r12 show ?thesis by (rule trans)
        qed
      qed
    qed
  qed
qed

lemma callSubscribers_rel:
  assumes refl: "\<And>w. R w w" and trans: "\<And>a b c. R a b \<Longrightarrow> R b c \<Longrightarrow> R a c"
    and cs: "callSubscribers ctid session mess pmark ns w = (out, w')"
    and act: "\<And>key val act u ok u'. (key, val) \<in> set (subscriptions (heap w session)) \<Longrightarrow>
                act \<in> set (fst (NfqueueFunc val mess ctid ns)) \<Longrightarrow>
                runAction (Session mess) act u = (ok, u') \<Longrightarrow> R u u'"
    and rel: "\<And>key val res u. (key, val) \<in> set (subscriptions (heap w session)) \<Longrightarrow>
                snd (NfqueueFunc val mess ctid ns) = Returns res \<Longrightarrow> SessionRelease res \<Longrightarrow>
                R u (ReleaseSession session key u)"
    and log: "\<And>l u. R u (logger l u)"
    and inv: "\<And>key u. R u (u\<lparr>invoked := invoked u @ [(key, ctid, ns)]\<rparr>)"
    and bypass: "subscriptions (heap w session) = [] \<Longrightarrow>
                R w (AddSessionEntry (conntrackID (heap w session)) ''bypass_packetd'' (DBool True) w)"
  shows "R w w'"
proof (cases "subscriptions (heap w session) = []")
  case True
  with cs have "w' = AddSessionEntry (conntrackID (heap w session)) ''bypass_packetd'' (DBool True) w"
    by (simp add: callSubscribers_def MirrorNfqueueSubscriptions_def)
  with bypass True show ?thesis by simp
next
  case False
  obtain r n w1 where pw: "priorityWalk ctid session mess ns (subscriptions (heap w session)) 0 0 0 w = (r, n, w1)"
    by (cases "priorityWalk ctid session mess ns (subscriptions (heap w session)) 0 0 0 w")
  with cs False have "w' = w1"
    by (auto simp: callSubscribers_def MirrorNfqueueSubscriptions_def split: option.splits)
  moreover have "R w w1"
    by (rule priorityWalk_rel [where R = R, OF refl trans pw act rel log inv])
  ultimately show ?thesis by simp
qed


subsection \<open>How the priority walk and the callback can end\<close>

lemma priorityWalk_out:
  assumes pw: "priorityWalk ctid session mess ns sublist subcount priority n w = (r, n', w')"
  shows "r = None \<or> r = Some Blocked \<or> (\<exists>m. r = Some (Panicked m))"
  using pw
proof (induction "nat (101 - priority)" arbitrary: subcount priority n w rule: less_induct)
  case less
  note pw = less.prems
  show ?case
  proof (cases "subcount = length sublist")
    case True
    with pw show ?thesis by (simp add: priorityWalk.simps)
  next
    case False
    let ?tier = "filter (\<lambda>kv. Priority (snd kv) = priority) sublist"
    obtain ends w1 where st: "spawnTier ?tier mess ctid ns w = (ends, w1)"
      by (cases "spawnTier ?tier mess ctid ns w")
    obtain ok w2 where cr: "collectResults session (length ?tier) (resultsChannel ends) w1 = (ok, w2)"
      by (cases "collectResults session (length ?tier) (resultsChannel ends) w1")
    show ?thesis
    proof (cases "Crashed \<notin> set ends \<and> ok \<and> \<not> priority + 1 > 100")
      case True
      then have rec: "priorityWalk ctid session mess ns sublist (subcount + length ?tier) (priority + 1) (n + 1) w2 = (r, n', w')"
        using pw False st cr by (simp add: priorityWalk.simps Let_def)
      have "nat (101 - (priority + 1)) < nat (101 - priority)" using True by simp
      then show ?thesis using less.hyps rec by blast
    next
      case stop: False
      then show ?thesis using pw False st cr
        by (cases ok) (auto simp: priorityWalk.simps Let_def split: if_splits)
    qed
  qed
qed

lemma callSubscribers_out:
  "callSubscribers ctid session mess pmark ns w = (Returned v, w') \<Longrightarrow> v = NfAccept"
proof -
  assume cs: "callSubscribers ctid session mess pmark ns w = (Returned v, w')"
  obtain r n w1 where pw: "priorityWalk ctid session mess ns (subscriptions (heap w session)) 0 0 0 w = (r, n, w1)"
    by (cases "priorityWalk ctid session mess ns (subscriptions (heap w session)) 0 0 0 w")
  from priorityWalk_out [OF pw] cs pw show ?thesis
    by (auto simp: callSubscribers_def MirrorNfqueueSubscriptions_def Let_def split: if_splits)
qed

lemma sessionResolution_out:
  "sessionResolution ctid mess ns w = Inl (out, w') \<Longrightarrow> out = Returned NfAccept"
  by (auto simp: sessionResolution_def Let_def split: option.splits if_splits prod.splits)


text \<open>
  C7. Whenever the callback returns a verdict, the verdict is \<^verbatim>\<open>NfAccept\<close>: on the
  return for a packet without an IP layer, on the loopback guard, on the mid-flow bypass,
  on the empty snapshot and at the end of the plugin pipeline. No path returns
  \<^verbatim>\<open>NfDrop\<close>. (A call that ends in the panic of the priority walk or that waits for
  ever returns no verdict at all.)
\<close>

theorem nfqueueCallback_accept:
  "nfqueueCallback ctid family' packet packetLength pmark w = (Returned v, w') \<Longrightarrow>
     v = NfAccept \<and> v \<noteq> NfDrop"
  by (auto simp: nfqueueCallback_def Let_def NfAccept_def NfDrop_def
      split: option.splits if_splits sum.splits prod.splits
      dest: sessionResolution_out callSubscribers_out)

text \<open>
  C10. Calling \<^verbatim>\<open>ReleaseSession\<close> on a session whose subscription set is already
  empty returns at once and changes nothing, for every owner: the world after the call is
  the world before it, so the set stays empty and no \<^verbatim>\<open>bypass_packetd\<close> entry is
  written. More generally a call that writes the dictionary started from a non-empty set
  and ended with the empty one: the bypass write happens only on that transition.
\<close>

theorem ReleaseSession_empty_noop:
  "(subscriptions (heap w session) = [] \<longrightarrow> ReleaseSession session owner' w = w) \<and>
   (dictSessions (ReleaseSession session owner' w) \<noteq> dictSessions w \<longrightarrow>
      subscriptions (heap w session) \<noteq> [] \<and>
      subscriptions (heap (ReleaseSession session owner' w) session) = [])"
  by (auto simp: ReleaseSession_def Let_def updSession_def logger_def AddSessionEntry_def)

subsection \<open>The sample worlds, evaluated\<close>

text \<open>Unfolding the whole model, for the evaluation of the callback on the sample worlds.\<close>

lemmas evals = nfqueueCallback_def ipLayers_def upperLayers_def sessionResolution_def packetAccounting_def
  conntrackCheck_def direction_def interfaceAttribution_def accounting_def newMessage_def
  callSubscribers_def createSession_def Let_def zeroMessage_def zeroTuple_def zeroSession_def
  startWorld_def tcpPacket_def otherPacket_def arpPacket_def loopbackPacket_def
  findSession_def insertSessionTable_def removeFromSessionTable_def findConntrack_def removeConntrack_def
  nextSessionID_def AttachNfqueueSubscriptions_def MirrorNfqueueSubscriptions_def
  timeNow_def logger_def AddSessionEntry_def updSession_def deleteKey_def ReleaseSession_def
  IsLoopback_def To4_def IPEqual_def v4InV6Prefix_def IPv6loopback_def TupleEqual_def
  pluginTask_def keepHandler_def releaseHandler_def sleepHandler_def subscription_def NfAccept_def
  PutAttachment_def geoipHandler_def PluginNfqueueHandler_def pluginName_def geoCountry_def
  priorityWalk.simps sessionWorld_def tcpMessage_def

lemma sessionWorld_fields:
  "heapNext (sessionWorld subs) = 1"
  "sessionTable (sessionWorld subs) = [7 \<mapsto> 0]"
  "dictSessions (sessionWorld subs) = (\<lambda>ctid. Map.empty)"
  "subscriptions (heap (sessionWorld subs) 0) = subs"
  "conntrackID (heap (sessionWorld subs) 0) = 7"
  "nfqueueList (sessionWorld subs) = subs"
  "invoked (sessionWorld subs) = []"
  "logged (sessionWorld subs) = []"
  by (simp_all add: sessionWorld_def createSession_eq startWorld_def)

lemma tcpMessage_tuple:
  "MsgTuple tcpMessage =
     \<lparr>Protocol = 6, ClientAddress = [10, 0, 0, 5], ClientPort = 54321,
      ServerAddress = [93, 184, 216, 34], ServerPort = 443\<rparr>"
  by (simp add: tcpMessage_def upperLayers_def ipLayers_def newMessage_def zeroMessage_def
      zeroTuple_def tcpPacket_def)

lemma return_paths:
  "fst (nfqueueCallback 7 2 arpPacket 60 0x10000000 (startWorld [])) = Returned 1"
  "fst (nfqueueCallback 7 2 loopbackPacket 60 0x10000000 (startWorld [])) = Returned 1"
  "fst (nfqueueCallback 7 2 tcpPacket 60 0 (startWorld [])) = Returned 1"
  "fst (nfqueueCallback 7 2 tcpPacket 60 0x10000000 (startWorld [])) = Returned 1"
  "fst (nfqueueCallback 7 2 tcpPacket 60 0x10000000 (startWorld [subscription ''a'' 0 keepHandler]))
     = Returned 1"
  by (simp_all add: evals cong: let_weak_cong)

theorem nfqueueCallback_accept_witness:
  "fst (nfqueueCallback 7 2 arpPacket 60 0x10000000 (startWorld [])) = Returned 1 \<and>
   fst (nfqueueCallback 7 2 loopbackPacket 60 0x10000000 (startWorld [])) = Returned 1 \<and>
   fst (nfqueueCallback 7 2 tcpPacket 60 0 (startWorld [])) = Returned 1 \<and>
   fst (nfqueueCallback 7 2 tcpPacket 60 0x10000000 (startWorld [])) = Returned 1 \<and>
   fst (nfqueueCallback 7 2 tcpPacket 60 0x10000000 (startWorld [subscription ''a'' 0 keepHandler]))
     = Returned 1 \<and>
   (1::int) = NfAccept \<and> (1::int) \<noteq> NfDrop"
proof -
  have h: "nfqueueCallback 7 2 tcpPacket 60 0x10000000 (startWorld [subscription ''a'' 0 keepHandler]) =
             (Returned 1, snd (nfqueueCallback 7 2 tcpPacket 60 0x10000000
                                 (startWorld [subscription ''a'' 0 keepHandler])))"
    using return_paths(5) by (metis prod.collapse)
  show ?thesis using return_paths nfqueueCallback_accept [OF h] by simp
qed

theorem ReleaseSession_empty_noop_witness:
  "subscriptions (heap (sessionWorld []) 0) = [] \<and>
   ReleaseSession 0 ''geoip'' (sessionWorld []) = sessionWorld [] \<and>
   dictSessions (ReleaseSession 0 ''geoip'' (sessionWorld [subscription ''geoip'' 0 geoipHandler]))
     \<noteq> dictSessions (sessionWorld [subscription ''geoip'' 0 geoipHandler]) \<and>
   subscriptions (heap (sessionWorld [subscription ''geoip'' 0 geoipHandler]) 0) \<noteq> [] \<and>
   subscriptions (heap (ReleaseSession 0 ''geoip'' (sessionWorld [subscription ''geoip'' 0 geoipHandler])) 0) = []"
proof -
  let ?w = "sessionWorld [subscription ''geoip'' 0 geoipHandler]"
  have e: "subscriptions (heap (sessionWorld []) 0) = []"
    by (simp add: sessionWorld_fields)
  have "dictSessions (ReleaseSession 0 ''geoip'' ?w) 7 ''bypass_packetd'' = Some (DBool True)"
    by (simp add: ReleaseSession_dict sessionWorld_fields subscription_def deleteKey_def)
  moreover have "dictSessions ?w 7 ''bypass_packetd'' = None"
    by (simp add: sessionWorld_fields)
  ultimately have d: "dictSessions (ReleaseSession 0 ''geoip'' ?w) \<noteq> dictSessions ?w"
    by (metis option.distinct(1))
  show ?thesis
    using e d ReleaseSession_empty_noop [of "sessionWorld []" 0 "''geoip''"]
      ReleaseSession_empty_noop [of ?w 0 "''geoip''"]
    by simp
qed

subsection \<open>The frame of the plugin pipeline; the cases of the session resolution\<close>

lemma pluginFrame_refl: "pluginFrame w w"
  by (simp add: pluginFrame_def)

lemma pluginFrame_trans: "pluginFrame a b \<Longrightarrow> pluginFrame b c \<Longrightarrow> pluginFrame a c"
  unfolding pluginFrame_def by (intro conjI allI) (simp_all, blast+)

lemma set_deleteKey: "set (deleteKey k m) \<subseteq> set m"
  by (auto simp: deleteKey_def)

lemma pluginFrame_ReleaseSession: "pluginFrame w (ReleaseSession a k w)"
  by (simp add: pluginFrame_def ReleaseSession_heap ReleaseSession_dict ReleaseSession_other
      set_deleteKey) (auto simp: dom_def)

lemma pluginFrame_AddSessionEntry: "pluginFrame w (AddSessionEntry c f v w)"
  by (auto simp: pluginFrame_def AddSessionEntry_def)

lemma pluginFrame_PutAttachment: "pluginFrame w (PutAttachment a k v w)"
  by (simp add: pluginFrame_def PutAttachment_def updSession_def)

lemma pluginFrame_logger: "pluginFrame w (logger l w)"
  by (simp add: pluginFrame_def logger_def)

lemma pluginFrame_invoked: "pluginFrame w (w\<lparr>invoked := invoked w @ [e]\<rparr>)"
  by (simp add: pluginFrame_def)

lemma pluginFrame_runAction: "runAction s act w = (ok, w') \<Longrightarrow> pluginFrame w w'"
  by (cases act; cases s)
     (auto simp: pluginFrame_refl pluginFrame_ReleaseSession pluginFrame_AddSessionEntry
        pluginFrame_PutAttachment)

lemma callSubscribers_frame:
  assumes "callSubscribers ctid session mess pmark ns w = (out, w')"
  shows "pluginFrame w w'"
  by (rule callSubscribers_rel [where R = pluginFrame, OF pluginFrame_refl pluginFrame_trans assms])
     (simp_all add: pluginFrame_runAction pluginFrame_ReleaseSession pluginFrame_logger
        pluginFrame_invoked pluginFrame_AddSessionEntry)

lemma pluginFrame_fields:
  assumes "pluginFrame w w'"
  shows "conntrackID (heap w' a) = conntrackID (heap w a)"
    and "creationTime (heap w' a) = creationTime (heap w a)"
    and "clientSideTuple (heap w' a) = clientSideTuple (heap w a)"
    and "packetCount (heap w' a) = packetCount (heap w a)"
proof -
  from assms have e: "(heap w' a)\<lparr>subscriptions := [], attachments := Map.empty\<rparr> =
      (heap w a)\<lparr>subscriptions := [], attachments := Map.empty\<rparr>"
    by (simp add: pluginFrame_def)
  from arg_cong [OF e, of conntrackID] show "conntrackID (heap w' a) = conntrackID (heap w a)" by simp
  from arg_cong [OF e, of creationTime] show "creationTime (heap w' a) = creationTime (heap w a)" by simp
  from arg_cong [OF e, of clientSideTuple] show "clientSideTuple (heap w' a) = clientSideTuple (heap w a)" by simp
  from arg_cong [OF e, of packetCount] show "packetCount (heap w' a) = packetCount (heap w a)" by simp
qed

lemma sessionResolution_midflow:
  "sessionTable w ctid = None \<Longrightarrow>
     \<exists>l. sessionResolution ctid mess False w =
       Inl (Returned NfAccept, AddSessionEntry ctid ''bypass_packetd'' (DBool True) (logger l w))"
  by (auto simp: sessionResolution_def findSession_def Let_def)

lemma sessionResolution_create:
  "sessionTable w ctid = None \<Longrightarrow>
     sessionResolution ctid mess True w = Inr (heapNext w, True, snd (createSession mess ctid w))"
  by (simp add: sessionResolution_def findSession_def createSession_eq)

lemma sessionResolution_keep:
  "sessionTable w ctid = Some a \<Longrightarrow> ns \<longrightarrow> TupleEqual (MsgTuple mess) (clientSideTuple (heap w a)) \<Longrightarrow>
     \<exists>w1. sessionResolution ctid mess ns w = Inr (a, False, w1) \<and> w1\<lparr>logged := logged w\<rparr> = w"
  by (auto simp: sessionResolution_def findSession_def logger_def)

lemma sessionResolution_conflict:
  "sessionTable w ctid = Some a \<Longrightarrow> \<not> TupleEqual (MsgTuple mess) (clientSideTuple (heap w a)) \<Longrightarrow>
     \<exists>l. sessionResolution ctid mess True w =
       Inr (heapNext w, True, snd (createSession mess ctid (removeFromSessionTable a (logger l w))))"
  by (auto simp: sessionResolution_def findSession_def logger_def Let_def createSession_eq
      removeFromSessionTable_def)

lemma createSession_fields:
  "fst (createSession mess ctid w) = heapNext w"
  "sessionTable (snd (createSession mess ctid w)) = (sessionTable w)(ctid \<mapsto> heapNext w)"
  "heapNext (snd (createSession mess ctid w)) = heapNext w + 1"
  "dictSessions (snd (createSession mess ctid w)) = dictSessions w"
  "nfqueueList (snd (createSession mess ctid w)) = nfqueueList w"
  "conntrackTable (snd (createSession mess ctid w)) = conntrackTable w"
  "invoked (snd (createSession mess ctid w)) = invoked w"
  "b \<noteq> heapNext w \<Longrightarrow> heap (snd (createSession mess ctid w)) b = heap w b"
  "conntrackID (heap (snd (createSession mess ctid w)) (heapNext w)) = ctid"
  "creationTime (heap (snd (createSession mess ctid w)) (heapNext w)) = clockReadings w (clockTicks w)"
  "clientSideTuple (heap (snd (createSession mess ctid w)) (heapNext w)) = MsgTuple mess"
  "packetCount (heap (snd (createSession mess ctid w)) (heapNext w)) = 1"
  "subscriptions (heap (snd (createSession mess ctid w)) (heapNext w)) = nfqueueList w"
  by (simp_all add: createSession_eq)

lemma parsed_samples:
  "parsed 2 arpPacket 60 pmark = None"
  "parsed 2 loopbackPacket 60 pmark = None"
  "parsed 2 tcpPacket 60 pmark \<noteq> None"
  "parsed 2 otherPacket 60 pmark \<noteq> None"
  by (simp_all add: parsed_def ipLayers_def newMessage_def zeroMessage_def arpPacket_def
      loopbackPacket_def tcpPacket_def otherPacket_def IsLoopback_def To4_def)

text \<open>
  C4, as amended. For every packet that has an IPv4 or IPv6 layer and no loopback address,
  whose ctid has no session in the session table and whose mark has the new-flow bit
  \<^verbatim>\<open>0x10000000\<close> unset: the callback returns \<^verbatim>\<open>NfAccept\<close>, the dictionary then holds
  \<^verbatim>\<open>bypass_packetd = true\<close> under the ctid, and no session has been created (the session
  table, the allocation mark and the session objects are as before).
\<close>

theorem midflow_bypass:
  assumes p: "parsed family' packet packetLength pmark \<noteq> None"
    and t: "sessionTable w ctid = None"
    and m: "pmark AND 0x10000000 = 0"
  shows "fst (nfqueueCallback ctid family' packet packetLength pmark w) = Returned NfAccept \<and>
         dictSessions (snd (nfqueueCallback ctid family' packet packetLength pmark w)) ctid
           ''bypass_packetd'' = Some (DBool True) \<and>
         sessionTable (snd (nfqueueCallback ctid family' packet packetLength pmark w)) = sessionTable w \<and>
         heapNext (snd (nfqueueCallback ctid family' packet packetLength pmark w)) = heapNext w \<and>
         heap (snd (nfqueueCallback ctid family' packet packetLength pmark w)) = heap w"
proof -
  from p obtain mess where pm: "parsed family' packet packetLength pmark = Some mess" by auto
  from sessionResolution_midflow [OF t, of mess] obtain l where
    "sessionResolution ctid mess False w =
       Inl (Returned NfAccept, AddSessionEntry ctid ''bypass_packetd'' (DBool True) (logger l w))"
    by blast
  then show ?thesis
    by (simp add: parsed_Some [OF pm] m AddSessionEntry_def logger_def)
qed

text \<open>
  The claim without the guard on the packet fails: a packet without an IP layer leaves the
  callback before the session is looked up, and nothing is written.
\<close>

theorem midflow_bypass_counterexample:
  "sessionTable (startWorld []) 7 = None \<and> (0 :: 32 word) AND 0x10000000 = 0 \<and>
   dictSessions (snd (nfqueueCallback 7 2 arpPacket 60 0 (startWorld []))) 7 ''bypass_packetd''
     \<noteq> Some (DBool True)"
proof -
  have "(snd (nfqueueCallback 7 2 arpPacket 60 0 (startWorld [])))\<lparr>logged := logged (startWorld [])\<rparr> = startWorld []"
    using parsed_None [OF parsed_samples(1)] by blast
  from arg_cong [OF this, of dictSessions] show ?thesis by (simp add: startWorld_def)
qed

theorem midflow_bypass_witness:
  "parsed 2 tcpPacket 60 2 \<noteq> None \<and> sessionTable (startWorld []) 7 = None \<and>
   (2 :: 32 word) AND 0x10000000 = 0 \<and>
   fst (nfqueueCallback 7 2 tcpPacket 60 2 (startWorld [])) = Returned NfAccept \<and>
   dictSessions (snd (nfqueueCallback 7 2 tcpPacket 60 2 (startWorld []))) 7 ''bypass_packetd''
     = Some (DBool True) \<and>
   sessionTable (snd (nfqueueCallback 7 2 tcpPacket 60 2 (startWorld []))) 7 = None \<and>
   heapNext (snd (nfqueueCallback 7 2 tcpPacket 60 2 (startWorld []))) = 0"
proof -
  have t: "sessionTable (startWorld []) 7 = None" by (simp add: startWorld_def)
  have m: "(2 :: 32 word) AND 0x10000000 = 0" by simp
  show ?thesis
    using parsed_samples(3) t m midflow_bypass [OF parsed_samples(3) t m]
    by (simp add: startWorld_def)
qed

text \<open>
  C2, as amended. For every packet that has an IPv4 or IPv6 layer and no loopback address,
  that carries the mark bit \<^verbatim>\<open>0x10000000\<close> and arrives when no session exists for its
  ctid: after the callback (however it ends) the session table maps the ctid to a new
  session, whose conntrack id is the ctid and whose creation time is the reading of the
  clock taken when the callback created it, the first reading of the call.
\<close>

theorem new_flow_session:
  assumes p: "parsed family' packet packetLength pmark \<noteq> None"
    and t: "sessionTable w ctid = None"
    and m: "pmark AND 0x10000000 \<noteq> 0"
  shows "sessionTable (snd (nfqueueCallback ctid family' packet packetLength pmark w)) ctid
           = Some (heapNext w) \<and>
         conntrackID (heap (snd (nfqueueCallback ctid family' packet packetLength pmark w)) (heapNext w))
           = ctid \<and>
         creationTime (heap (snd (nfqueueCallback ctid family' packet packetLength pmark w)) (heapNext w))
           = clockReadings w (clockTicks w)"
proof -
  from p obtain mess where pm: "parsed family' packet packetLength pmark = Some mess" by auto
  let ?a = "heapNext w"
  let ?w1 = "snd (createSession mess ctid w)"
  let ?pa = "packetAccounting ctid ?a True mess pmark ?w1"
  let ?w' = "snd (nfqueueCallback ctid family' packet packetLength pmark w)"
  have eq: "nfqueueCallback ctid family' packet packetLength pmark w =
              callSubscribers ctid ?a (fst ?pa) pmark True (snd ?pa)"
    by (simp add: parsed_Some [OF pm] m sessionResolution_create [OF t])
  then have "callSubscribers ctid ?a (fst ?pa) pmark True (snd ?pa) =
               (fst (nfqueueCallback ctid family' packet packetLength pmark w), ?w')"
    by simp
  then have fr: "pluginFrame (snd ?pa) ?w'" by (rule callSubscribers_frame)
  have "sessionTable ?w' = (sessionTable w)(ctid \<mapsto> ?a)"
    using fr by (simp add: pluginFrame_def packetAccounting_other createSession_fields)
  moreover have "conntrackID (heap ?w' ?a) = ctid"
    by (simp add: pluginFrame_fields [OF fr] packetAccounting_heap createSession_fields)
  moreover have "creationTime (heap ?w' ?a) = clockReadings w (clockTicks w)"
    by (simp add: pluginFrame_fields [OF fr] packetAccounting_heap createSession_fields)
  ultimately show ?thesis by simp
qed

text \<open>
  The claim without the guard on the packet fails: a packet without an IP layer that
  carries the new-flow bit creates no session.
\<close>

theorem new_flow_session_counterexample:
  "sessionTable (startWorld [subscription ''a'' 0 keepHandler]) 7 = None \<and>
   (0x10000000 :: 32 word) AND 0x10000000 \<noteq> 0 \<and>
   sessionTable (snd (nfqueueCallback 7 2 arpPacket 60 0x10000000
     (startWorld [subscription ''a'' 0 keepHandler]))) 7 = None"
proof -
  let ?w = "startWorld [subscription ''a'' 0 keepHandler]"
  have "(snd (nfqueueCallback 7 2 arpPacket 60 0x10000000 ?w))\<lparr>logged := logged ?w\<rparr> = ?w"
    using parsed_None [OF parsed_samples(1)] by blast
  from arg_cong [OF this, of sessionTable] show ?thesis by (simp add: startWorld_def)
qed

theorem new_flow_session_witness:
  "parsed 2 tcpPacket 60 0x10000002 \<noteq> None \<and>
   sessionTable (startWorld [subscription ''a'' 0 keepHandler]) 7 = None \<and>
   (0x10000002 :: 32 word) AND 0x10000000 \<noteq> 0 \<and>
   sessionTable (snd (nfqueueCallback 7 2 tcpPacket 60 0x10000002
     (startWorld [subscription ''a'' 0 keepHandler]))) 7 = Some 0 \<and>
   conntrackID (heap (snd (nfqueueCallback 7 2 tcpPacket 60 0x10000002
     (startWorld [subscription ''a'' 0 keepHandler]))) 0) = 7 \<and>
   creationTime (heap (snd (nfqueueCallback 7 2 tcpPacket 60 0x10000002
     (startWorld [subscription ''a'' 0 keepHandler]))) 0) = 1000"
proof -
  let ?w = "startWorld [subscription ''a'' 0 keepHandler]"
  have t: "sessionTable ?w 7 = None" by (simp add: startWorld_def)
  have m: "(0x10000002 :: 32 word) AND 0x10000000 \<noteq> 0" by simp
  show ?thesis
    using parsed_samples(3) t m new_flow_session [OF parsed_samples(3) t m]
    by (simp add: startWorld_def)
qed

text \<open>
  The packet count of that session after the callback is 2, not 1: \<^verbatim>\<open>createSession\<close>
  sets it to 1 and the accounting of the callback adds 1 for the same packet.
\<close>

lemma first_packet_counted_twice:
  assumes p: "parsed family' packet packetLength pmark \<noteq> None"
    and t: "sessionTable w ctid = None"
    and m: "pmark AND 0x10000000 \<noteq> 0"
  shows "packetCount (heap (snd (nfqueueCallback ctid family' packet packetLength pmark w)) (heapNext w)) = 2"
proof -
  from p obtain mess where pm: "parsed family' packet packetLength pmark = Some mess" by auto
  let ?a = "heapNext w"
  let ?w1 = "snd (createSession mess ctid w)"
  let ?pa = "packetAccounting ctid ?a True mess pmark ?w1"
  let ?w' = "snd (nfqueueCallback ctid family' packet packetLength pmark w)"
  have eq: "nfqueueCallback ctid family' packet packetLength pmark w =
              callSubscribers ctid ?a (fst ?pa) pmark True (snd ?pa)"
    by (simp add: parsed_Some [OF pm] m sessionResolution_create [OF t])
  then have "callSubscribers ctid ?a (fst ?pa) pmark True (snd ?pa) =
               (fst (nfqueueCallback ctid family' packet packetLength pmark w), ?w')"
    by simp
  then have fr: "pluginFrame (snd ?pa) ?w'" by (rule callSubscribers_frame)
  show ?thesis
    by (simp add: pluginFrame_fields [OF fr] packetAccounting_heap createSession_fields)
qed


subsection \<open>The bound of the priority walk\<close>

lemma priorityWalk_iterations:
  assumes pw: "priorityWalk ctid session mess ns sublist subcount priority n w = (r, n', w')"
    and le: "priority \<le> 100"
  shows "n' \<le> n + nat (101 - priority)"
  using pw le
proof (induction "nat (101 - priority)" arbitrary: subcount priority n w rule: less_induct)
  case less
  note pw = less.prems(1) and le = less.prems(2)
  show ?case
  proof (cases "subcount = length sublist")
    case True
    with pw show ?thesis by (simp add: priorityWalk.simps)
  next
    case False
    let ?tier = "filter (\<lambda>kv. Priority (snd kv) = priority) sublist"
    obtain ends w1 where st: "spawnTier ?tier mess ctid ns w = (ends, w1)"
      by (cases "spawnTier ?tier mess ctid ns w")
    obtain ok w2 where cr: "collectResults session (length ?tier) (resultsChannel ends) w1 = (ok, w2)"
      by (cases "collectResults session (length ?tier) (resultsChannel ends) w1")
    show ?thesis
    proof (cases "Crashed \<notin> set ends \<and> ok \<and> \<not> priority + 1 > 100")
      case True
      then have rec: "priorityWalk ctid session mess ns sublist (subcount + length ?tier) (priority + 1) (n + 1) w2 = (r, n', w')"
        using pw False st cr by (simp add: priorityWalk.simps Let_def)
      have "nat (101 - (priority + 1)) < nat (101 - priority)" using True by simp
      moreover have "priority + 1 \<le> 100" using True by simp
      ultimately have "n' \<le> n + 1 + nat (101 - (priority + 1))" using less.hyps rec by blast
      then show ?thesis using le by simp
    next
      case stop: False
      then have "n' = n + 1" using pw False st cr
        by (cases ok) (auto simp: priorityWalk.simps Let_def split: if_splits)
      then show ?thesis using le by simp
    qed
  qed
qed

lemma called_step:
  "0 \<le> p \<Longrightarrow> called sublist (p + 1) =
     called sublist p + length (filter (\<lambda>kv. Priority (snd kv) = p) sublist)"
  unfolding called_def by (induction sublist) auto

lemma priorityWalk_normal_end:
  assumes pw: "priorityWalk ctid session mess ns sublist subcount priority n w = (None, n', w')"
    and le: "priority \<le> 100"
  shows "n' \<le> n + nat (100 - priority)"
  using pw le
proof (induction "nat (101 - priority)" arbitrary: subcount priority n w rule: less_induct)
  case less
  note pw = less.prems(1) and le = less.prems(2)
  show ?case
  proof (cases "subcount = length sublist")
    case True
    with pw show ?thesis by (simp add: priorityWalk.simps)
  next
    case False
    let ?tier = "filter (\<lambda>kv. Priority (snd kv) = priority) sublist"
    obtain ends w1 where st: "spawnTier ?tier mess ctid ns w = (ends, w1)"
      by (cases "spawnTier ?tier mess ctid ns w")
    obtain ok w2 where cr: "collectResults session (length ?tier) (resultsChannel ends) w1 = (ok, w2)"
      by (cases "collectResults session (length ?tier) (resultsChannel ends) w1")
    show ?thesis
    proof (cases "Crashed \<notin> set ends \<and> ok \<and> \<not> priority + 1 > 100")
      case True
      then have rec: "priorityWalk ctid session mess ns sublist (subcount + length ?tier) (priority + 1) (n + 1) w2 = (None, n', w')"
        using pw False st cr by (simp add: priorityWalk.simps Let_def)
      have "nat (101 - (priority + 1)) < nat (101 - priority)" using True by simp
      moreover have "priority + 1 \<le> 100" using True by simp
      ultimately have "n' \<le> n + 1 + nat (100 - (priority + 1))" using less.hyps rec by blast
      moreover have "n + 1 + nat (100 - (priority + 1)) = n + nat (100 - priority)" using True by arith
      ultimately show ?thesis by simp
    next
      case stop: False
      then have "False" using pw False st cr
        by (cases ok) (auto simp: priorityWalk.simps Let_def split: if_splits)
      then show ?thesis ..
    qed
  qed
qed

lemma called_short:
  assumes "\<exists>kv\<in>set sublist. Priority (snd kv) < 0 \<or> 99 < Priority (snd kv)" and "p \<le> 100"
  shows "called sublist p < length sublist"
proof -
  from assms(1) obtain kv where kv: "kv \<in> set sublist"
    and pr: "Priority (snd kv) < 0 \<or> 99 < Priority (snd kv)" by blast
  from pr assms(2) have "\<not> (0 \<le> Priority (snd kv) \<and> Priority (snd kv) < p)" by auto
  with kv show ?thesis unfolding called_def by (rule length_filter_less)
qed

lemma priorityWalk_abort:
  assumes pw: "priorityWalk ctid session mess ns sublist subcount priority n w = (r, n', w')"
    and ge: "0 \<le> priority" and le: "priority \<le> 100"
    and cnt: "subcount = called sublist priority"
    and out: "\<exists>kv\<in>set sublist. Priority (snd kv) < 0 \<or> 99 < Priority (snd kv)"
  shows "(r = Some (Panicked ''Constraint failed - infinite loop detected'') \<and> n' = n + nat (101 - priority)) \<or>
         r = Some Blocked \<or>
         r = Some (Panicked ''invalid memory address or nil pointer dereference'')"
  using pw ge le cnt
proof (induction "nat (101 - priority)" arbitrary: subcount priority n w rule: less_induct)
  case less
  note pw = less.prems(1) and ge = less.prems(2) and le = less.prems(3) and cnt = less.prems(4)
  have False: "subcount \<noteq> length sublist"
    using called_short [OF out, of priority] le cnt by simp
  let ?tier = "filter (\<lambda>kv. Priority (snd kv) = priority) sublist"
  obtain ends w1 where st: "spawnTier ?tier mess ctid ns w = (ends, w1)"
    by (cases "spawnTier ?tier mess ctid ns w")
  obtain ok w2 where cr: "collectResults session (length ?tier) (resultsChannel ends) w1 = (ok, w2)"
    by (cases "collectResults session (length ?tier) (resultsChannel ends) w1")
  show ?case
  proof (cases "Crashed \<notin> set ends \<and> ok \<and> \<not> priority + 1 > 100")
    case True
    then have rec: "priorityWalk ctid session mess ns sublist (subcount + length ?tier) (priority + 1) (n + 1) w2 = (r, n', w')"
      using pw False st cr by (simp add: priorityWalk.simps Let_def)
    have m: "nat (101 - (priority + 1)) < nat (101 - priority)" using True by simp
    have c: "subcount + length ?tier = called sublist (priority + 1)"
      using called_step [OF ge, of sublist] cnt by simp
    have "(r = Some (Panicked ''Constraint failed - infinite loop detected'') \<and>
           n' = n + 1 + nat (101 - (priority + 1))) \<or>
          r = Some Blocked \<or>
          r = Some (Panicked ''invalid memory address or nil pointer dereference'')"
      using less.hyps [OF m rec _ _ c] ge True by simp
    then show ?thesis using le by auto
  next
    case stop: False
    then show ?thesis using pw False st cr le
      by (cases ok) (auto simp: priorityWalk.simps Let_def split: if_splits)
  qed
qed

lemma priorityWalk_skip:
  assumes ne: "subcount \<noteq> length sublist"
    and none: "\<forall>kv\<in>set sublist. Priority (snd kv) < priority \<or> q \<le> Priority (snd kv)"
    and le: "priority \<le> q" and hi: "q \<le> 100"
  shows "priorityWalk ctid session mess ns sublist subcount priority n w =
           priorityWalk ctid session mess ns sublist subcount q (n + nat (q - priority)) w"
  using none le
proof (induction "nat (q - priority)" arbitrary: priority n rule: less_induct)
  case less
  note none = less.prems(1) and le = less.prems(2)
  show ?case
  proof (cases "priority = q")
    case True
    then show ?thesis by simp
  next
    case False
    with le have lt: "priority < q" by simp
    have tier: "filter (\<lambda>kv. Priority (snd kv) = priority) sublist = []"
      using none lt by (auto simp: filter_empty_conv)
    have m: "nat (q - (priority + 1)) < nat (q - priority)" using lt by simp
    have n1: "\<forall>kv\<in>set sublist. Priority (snd kv) < priority + 1 \<or> q \<le> Priority (snd kv)"
      using none by auto
    have l1: "priority + 1 \<le> q" using lt by simp
    have e: "n + 1 + nat (q - (priority + 1)) = n + nat (q - priority)" using lt by arith
    have step: "priorityWalk ctid session mess ns sublist subcount (priority + 1) (n + 1) w =
           priorityWalk ctid session mess ns sublist subcount q (n + nat (q - priority)) w"
      using less.hyps [OF m n1 l1, of "n + 1"] by (simp only: e)
    have "\<not> priority + 1 > 100" using lt hi by simp
    then have "priorityWalk ctid session mess ns sublist subcount priority n w =
          priorityWalk ctid session mess ns sublist subcount (priority + 1) (n + 1) w"
      using ne tier by (subst priorityWalk.simps) (simp add: Let_def)
    with step show ?thesis by simp
  qed
qed

lemma lastTierRun_eval:
  "lastTierRun =
     (Some (Panicked ''Constraint failed - infinite loop detected''), 101,
      logger (LogCounted LogErr ''%OC|Priority > 100 Constraint failed! %d %d %d %v''
                ''nfqueue_priority_constraint'')
        ((sessionWorld [subscription ''late'' 100 keepHandler])\<lparr>invoked := [(''late'', 7, False)]\<rparr>))"
  unfolding lastTierRun_def
  apply (subst priorityWalk_skip [where q = 100])
      apply (simp_all add: subscription_def)
  apply (subst priorityWalk.simps)
  apply (simp add: Let_def pluginTask_def keepHandler_def sessionWorld_fields)
  done

lemma firstTierRun_eval:
  "(let r = firstTierRun
    in fst r = None \<and> fst (snd r) = 1 \<and> invoked (snd (snd r)) = [(''a'', 7, False)])"
  by (simp add: firstTierRun_def evals cong: let_weak_cong)

text \<open>
  C8, as amended. The priority walk, started as \<^verbatim>\<open>callSubscribers\<close> starts it, begins
  at most 101 iterations, one for each priority from 0 to 100, for every subscription
  list, and at most 100 when it ends normally. If a subscriber has a priority outside
  0..99, so that 100 iterations cannot call all subscribers, the walk does not end
  normally: unless it stops earlier at a tier that blocks or crashes, it makes its 101st
  iteration, for priority 100, and ends after it in the panic
  \<^verbatim>\<open>Constraint failed - infinite loop detected\<close>; it loops no further.
\<close>

theorem priorityWalk_bound:
  assumes pw: "priorityWalk ctid session mess ns sublist 0 0 0 w = (r, n, w')"
  shows "n \<le> 101 \<and>
         (r = None \<longrightarrow> n \<le> 100) \<and>
         ((\<exists>kv\<in>set sublist. Priority (snd kv) < 0 \<or> 99 < Priority (snd kv)) \<longrightarrow>
            (r = Some (Panicked ''Constraint failed - infinite loop detected'') \<and> n = 101) \<or>
            r = Some Blocked \<or>
            r = Some (Panicked ''invalid memory address or nil pointer dereference''))"
proof -
  have "n \<le> 101" using priorityWalk_iterations [OF pw] by simp
  moreover have "r = None \<Longrightarrow> n \<le> 100" using priorityWalk_normal_end [of ctid session mess ns sublist 0 0 0 w n w'] pw by simp
  moreover have "called sublist 0 = 0" by (simp add: called_def)
  then have "(\<exists>kv\<in>set sublist. Priority (snd kv) < 0 \<or> 99 < Priority (snd kv)) \<Longrightarrow>
            (r = Some (Panicked ''Constraint failed - infinite loop detected'') \<and> n = 101) \<or>
            r = Some Blocked \<or>
            r = Some (Panicked ''invalid memory address or nil pointer dereference'')"
    using priorityWalk_abort [OF pw, of ] by simp
  ultimately show ?thesis by blast
qed

text \<open>
  The bound of 100 iterations fails: with one subscriber of priority 100 the walk begins
  101 iterations. The subscriber is called in the last of them, and the walk panics all
  the same.
\<close>

theorem priorityWalk_bound_counterexample:
  "fst lastTierRun = Some (Panicked ''Constraint failed - infinite loop detected'') \<and>
   fst (snd lastTierRun) = 101 \<and>
   invoked (snd (snd lastTierRun)) = [(''late'', 7, False)]"
  by (simp add: lastTierRun_eval logger_def)

theorem priorityWalk_bound_witness:
  "fst lastTierRun = Some (Panicked ''Constraint failed - infinite loop detected'') \<and>
   fst (snd lastTierRun) = 101 \<and>
   (\<exists>kv\<in>set [subscription ''late'' 100 keepHandler]. Priority (snd kv) < 0 \<or> 99 < Priority (snd kv)) \<and>
   fst firstTierRun = None \<and>
   fst (snd firstTierRun) = 1 \<and>
   fst (snd firstTierRun) \<le> 100 \<and>
   fst (snd lastTierRun) \<le> 101 \<and>
   fst lastTierRun \<noteq> None"
proof -
  have h1: "priorityWalk 7 0 (tcpMessage\<lparr>Session := Some 0\<rparr>) False [subscription ''late'' 100 keepHandler] 0 0 0
              (sessionWorld [subscription ''late'' 100 keepHandler]) =
            (fst lastTierRun, fst (snd lastTierRun), snd (snd lastTierRun))"
    by (simp add: lastTierRun_def)
  have h2: "priorityWalk 7 0 (tcpMessage\<lparr>Session := Some 0\<rparr>) False [subscription ''a'' 0 keepHandler] 0 0 0
              (sessionWorld [subscription ''a'' 0 keepHandler]) =
            (fst firstTierRun, fst (snd firstTierRun), snd (snd firstTierRun))"
    by (simp add: firstTierRun_def)
  have p: "\<exists>kv\<in>set [subscription ''late'' 100 keepHandler]. Priority (snd kv) < 0 \<or> 99 < Priority (snd kv)"
    by (simp add: subscription_def)
  have e1: "fst lastTierRun = Some (Panicked ''Constraint failed - infinite loop detected'')"
    "fst (snd lastTierRun) = 101"
    by (simp_all add: lastTierRun_eval)
  have e2: "fst firstTierRun = None" "fst (snd firstTierRun) = 1"
    using firstTierRun_eval [unfolded Let_def] by simp_all
  have b1: "fst (snd lastTierRun) \<le> 101" using priorityWalk_bound [OF h1] by blast
  have b2: "fst (snd firstTierRun) \<le> 100" using priorityWalk_bound [OF h2] e2(1) by blast
  have b3: "fst lastTierRun \<noteq> None" using priorityWalk_bound [OF h1] p by auto
  show ?thesis using e1 e2 p b1 b2 b3 by blast
qed


subsection \<open>Reuse of a ctid\<close>

lemma invokedWith_refl: "invokedWith ctid ns w w"
  by (simp add: invokedWith_def)

lemma invokedWith_trans:
  "invokedWith ctid ns a b \<Longrightarrow> invokedWith ctid ns b c \<Longrightarrow> invokedWith ctid ns a c"
  by (fastforce simp: invokedWith_def)

lemma invokedWith_same: "invoked w' = invoked w \<Longrightarrow> invokedWith ctid ns w w'"
  by (simp add: invokedWith_def)

lemma runAction_invoked: "runAction s act w = (ok, w') \<Longrightarrow> invoked w' = invoked w"
  by (cases act; cases s)
     (auto simp: ReleaseSession_other AddSessionEntry_def PutAttachment_def updSession_def)

lemma callSubscribers_invokedWith:
  assumes "callSubscribers ctid session mess pmark ns w = (out, w')"
  shows "invokedWith ctid ns w w'"
  by (rule callSubscribers_rel [where R = "invokedWith ctid ns", OF invokedWith_refl invokedWith_trans assms])
     (simp_all add: invokedWith_same runAction_invoked ReleaseSession_other logger_def
        AddSessionEntry_def, simp add: invokedWith_def)

lemma sample_tuples:
  "MsgTuple otherMessage =
     \<lparr>Protocol = 6, ClientAddress = [10, 0, 0, 6], ClientPort = 54321,
      ServerAddress = [93, 184, 216, 34], ServerPort = 443\<rparr>"
  "MsgTuple loopbackMessage =
     \<lparr>Protocol = 6, ClientAddress = [127, 0, 0, 1], ClientPort = 54321,
      ServerAddress = [127, 0, 0, 1], ServerPort = 443\<rparr>"
  by (simp_all add: otherMessage_def loopbackMessage_def upperLayers_def ipLayers_def newMessage_def
      zeroMessage_def zeroTuple_def otherPacket_def loopbackPacket_def)

lemma parsed_messages:
  "parsed 2 tcpPacket 60 0x10000000 = Some tcpMessage"
  "parsed 2 otherPacket 60 0x10000000 = Some otherMessage"
  by (simp_all add: parsed_def tcpMessage_def otherMessage_def ipLayers_def newMessage_def
      zeroMessage_def tcpPacket_def otherPacket_def IsLoopback_def To4_def)

lemma sessionWorld_tuple:
  "clientSideTuple (heap (sessionWorld subs) 0) = MsgTuple tcpMessage"
  by (simp add: sessionWorld_def createSession_eq startWorld_def)

text \<open>
  C3, as amended. For every packet that has an IPv4 or IPv6 layer and no loopback address,
  that carries the new-packet bit and whose ctid already maps to a session: if the
  incoming client-side tuple equals the stored one, the packet is treated as not new and
  the session is reused (the session table, the allocation mark and the conntrack table
  are unchanged, the packet is counted on the existing session, and the handlers are
  invoked with \<^verbatim>\<open>newSession = false\<close>); if the tuples differ, the old session is removed
  from the session table under its conntrack id, a new session with the ctid and the
  packet's tuple is created and entered under the ctid, and no entry of the dictionary is
  removed.
\<close>

theorem ctid_reuse:
  assumes p: "parsed family' packet packetLength pmark = Some mess"
    and m: "pmark AND 0x10000000 \<noteq> 0"
    and t: "sessionTable w ctid = Some a"
    and al: "a < heapNext w"
  shows "(TupleEqual (MsgTuple mess) (clientSideTuple (heap w a)) \<longrightarrow>
            sessionTable (snd (nfqueueCallback ctid family' packet packetLength pmark w)) = sessionTable w \<and>
            heapNext (snd (nfqueueCallback ctid family' packet packetLength pmark w)) = heapNext w \<and>
            conntrackTable (snd (nfqueueCallback ctid family' packet packetLength pmark w)) = conntrackTable w \<and>
            packetCount (heap (snd (nfqueueCallback ctid family' packet packetLength pmark w)) a)
              = packetCount (heap w a) + 1 \<and>
            invokedWith ctid False w (snd (nfqueueCallback ctid family' packet packetLength pmark w))) \<and>
         (\<not> TupleEqual (MsgTuple mess) (clientSideTuple (heap w a)) \<longrightarrow>
            sessionTable (snd (nfqueueCallback ctid family' packet packetLength pmark w))
              = ((sessionTable w)(conntrackID (heap w a) := None))(ctid \<mapsto> heapNext w) \<and>
            heapNext w \<noteq> a \<and>
            heapNext (snd (nfqueueCallback ctid family' packet packetLength pmark w)) = heapNext w + 1 \<and>
            conntrackID (heap (snd (nfqueueCallback ctid family' packet packetLength pmark w)) (heapNext w)) = ctid \<and>
            clientSideTuple (heap (snd (nfqueueCallback ctid family' packet packetLength pmark w)) (heapNext w))
              = MsgTuple mess \<and>
            (\<forall>c. dom (dictSessions w c)
                   \<subseteq> dom (dictSessions (snd (nfqueueCallback ctid family' packet packetLength pmark w)) c)))"
proof (intro conjI impI)
  let ?w' = "snd (nfqueueCallback ctid family' packet packetLength pmark w)"
  let ?out = "fst (nfqueueCallback ctid family' packet packetLength pmark w)"
  {
    assume eq: "TupleEqual (MsgTuple mess) (clientSideTuple (heap w a))"
    from sessionResolution_keep [OF t, of True mess] eq obtain w1 where
      sr: "sessionResolution ctid mess True w = Inr (a, False, w1)" and w1: "w1\<lparr>logged := logged w\<rparr> = w"
      by auto
    let ?pa = "packetAccounting ctid a False mess pmark w1"
    have "nfqueueCallback ctid family' packet packetLength pmark w =
            callSubscribers ctid a (fst ?pa) pmark False (snd ?pa)"
      by (simp add: parsed_Some [OF p] m sr)
    then have cs: "callSubscribers ctid a (fst ?pa) pmark False (snd ?pa) = (?out, ?w')" by simp
    have fr: "pluginFrame (snd ?pa) ?w'" using cs by (rule callSubscribers_frame)
    have iw: "invokedWith ctid False (snd ?pa) ?w'" using cs by (rule callSubscribers_invokedWith)
    have f1: "sessionTable w1 = sessionTable w" "heapNext w1 = heapNext w"
      "conntrackTable w1 = conntrackTable w" "heap w1 = heap w" "invoked w1 = invoked w"
      using arg_cong [OF w1, of sessionTable] arg_cong [OF w1, of heapNext]
        arg_cong [OF w1, of conntrackTable] arg_cong [OF w1, of heap] arg_cong [OF w1, of invoked]
      by simp_all
    show "sessionTable ?w' = sessionTable w" "heapNext ?w' = heapNext w"
      "conntrackTable ?w' = conntrackTable w"
      using fr by (simp_all add: pluginFrame_def packetAccounting_other f1)
    show "packetCount (heap ?w' a) = packetCount (heap w a) + 1"
      by (simp add: pluginFrame_fields [OF fr] packetAccounting_heap f1)
    show "invokedWith ctid False w ?w'"
      using iw by (simp add: invokedWith_def packetAccounting_other f1)
  }
  {
    assume ne: "\<not> TupleEqual (MsgTuple mess) (clientSideTuple (heap w a))"
    from sessionResolution_conflict [OF t ne] obtain l where
      sr: "sessionResolution ctid mess True w =
             Inr (heapNext w, True, snd (createSession mess ctid (removeFromSessionTable a (logger l w))))"
      by blast
    let ?w0 = "removeFromSessionTable a (logger l w)"
    let ?w1 = "snd (createSession mess ctid ?w0)"
    let ?pa = "packetAccounting ctid (heapNext w) True mess pmark ?w1"
    have f0: "heapNext ?w0 = heapNext w" "dictSessions ?w0 = dictSessions w"
      "sessionTable ?w0 = (sessionTable w)(conntrackID (heap w a) := None)"
      by (simp_all add: removeFromSessionTable_def logger_def)
    have "nfqueueCallback ctid family' packet packetLength pmark w =
            callSubscribers ctid (heapNext w) (fst ?pa) pmark True (snd ?pa)"
      by (simp add: parsed_Some [OF p] m sr)
    then have cs: "callSubscribers ctid (heapNext w) (fst ?pa) pmark True (snd ?pa) = (?out, ?w')" by simp
    have fr: "pluginFrame (snd ?pa) ?w'" using cs by (rule callSubscribers_frame)
    show "sessionTable ?w' = ((sessionTable w)(conntrackID (heap w a) := None))(ctid \<mapsto> heapNext w)"
      using fr createSession_fields(2) [of mess ctid ?w0]
      by (simp add: pluginFrame_def packetAccounting_other f0)
    show "heapNext w \<noteq> a" using al by simp
    show "heapNext ?w' = heapNext w + 1"
      using fr createSession_fields(3) [of mess ctid ?w0]
      by (simp add: pluginFrame_def packetAccounting_other f0)
    show "conntrackID (heap ?w' (heapNext w)) = ctid"
      using createSession_fields(9) [of mess ctid ?w0]
      by (simp add: pluginFrame_fields [OF fr] packetAccounting_heap f0)
    show "clientSideTuple (heap ?w' (heapNext w)) = MsgTuple mess"
      using createSession_fields(11) [of mess ctid ?w0]
      by (simp add: pluginFrame_fields [OF fr] packetAccounting_heap f0)
    show "\<forall>c. dom (dictSessions w c) \<subseteq> dom (dictSessions ?w' c)"
      using fr createSession_fields(4) [of mess ctid ?w0]
      by (simp add: pluginFrame_def packetAccounting_other f0)
  }
qed

text \<open>
  The claim without the guard on the packet fails: a loopback packet with the new-packet
  bit, a ctid that maps to a session and a different tuple leaves the old session in the
  table and creates none.
\<close>

theorem ctid_reuse_counterexample:
  "sessionTable (sessionWorld [subscription ''a'' 0 keepHandler]) 7 = Some 0 \<and>
   (0x10000000 :: 32 word) AND 0x10000000 \<noteq> 0 \<and>
   \<not> TupleEqual (MsgTuple loopbackMessage)
       (clientSideTuple (heap (sessionWorld [subscription ''a'' 0 keepHandler]) 0)) \<and>
   sessionTable (snd (nfqueueCallback 7 2 loopbackPacket 60 0x10000000
       (sessionWorld [subscription ''a'' 0 keepHandler]))) 7 = Some 0 \<and>
   heapNext (snd (nfqueueCallback 7 2 loopbackPacket 60 0x10000000
       (sessionWorld [subscription ''a'' 0 keepHandler]))) = 1"
proof -
  let ?w = "sessionWorld [subscription ''a'' 0 keepHandler]"
  have "(snd (nfqueueCallback 7 2 loopbackPacket 60 0x10000000 ?w))\<lparr>logged := logged ?w\<rparr> = ?w"
    using parsed_None [OF parsed_samples(2)] by blast
  from arg_cong [OF this, of sessionTable] arg_cong [OF this, of heapNext] show ?thesis
    by (simp add: sessionWorld_fields sessionWorld_tuple sample_tuples tcpMessage_tuple TupleEqual_def)
qed

theorem ctid_reuse_witness:
  "parsed 2 tcpPacket 60 0x10000000 = Some tcpMessage \<and>
   parsed 2 otherPacket 60 0x10000000 = Some otherMessage \<and>
   (0x10000000 :: 32 word) AND 0x10000000 \<noteq> 0 \<and>
   sessionTable (sessionWorld [subscription ''a'' 0 keepHandler]) 7 = Some 0 \<and>
   0 < heapNext (sessionWorld [subscription ''a'' 0 keepHandler]) \<and>
   TupleEqual (MsgTuple tcpMessage)
     (clientSideTuple (heap (sessionWorld [subscription ''a'' 0 keepHandler]) 0)) \<and>
   sessionTable (snd (nfqueueCallback 7 2 tcpPacket 60 0x10000000
       (sessionWorld [subscription ''a'' 0 keepHandler]))) 7 = Some 0 \<and>
   heapNext (snd (nfqueueCallback 7 2 tcpPacket 60 0x10000000
       (sessionWorld [subscription ''a'' 0 keepHandler]))) = 1 \<and>
   \<not> TupleEqual (MsgTuple otherMessage)
     (clientSideTuple (heap (sessionWorld [subscription ''a'' 0 keepHandler]) 0)) \<and>
   sessionTable (snd (nfqueueCallback 7 2 otherPacket 60 0x10000000
       (sessionWorld [subscription ''a'' 0 keepHandler]))) 7 = Some 1 \<and>
   heapNext (snd (nfqueueCallback 7 2 otherPacket 60 0x10000000
       (sessionWorld [subscription ''a'' 0 keepHandler]))) = 2"
proof -
  let ?w = "sessionWorld [subscription ''a'' 0 keepHandler]"
  have m: "(0x10000000 :: 32 word) AND 0x10000000 \<noteq> 0" by simp
  have t: "sessionTable ?w 7 = Some 0" by (simp add: sessionWorld_fields)
  have al: "0 < heapNext ?w" by (simp add: sessionWorld_fields)
  have e: "TupleEqual (MsgTuple tcpMessage) (clientSideTuple (heap ?w 0))"
    by (simp add: sessionWorld_tuple TupleEqual_def)
  have n: "\<not> TupleEqual (MsgTuple otherMessage) (clientSideTuple (heap ?w 0))"
    by (simp add: sessionWorld_tuple sample_tuples tcpMessage_tuple TupleEqual_def)
  show ?thesis
    using parsed_messages m t al e n
      ctid_reuse [OF parsed_messages(1) m t al] ctid_reuse [OF parsed_messages(2) m t al]
    by (simp add: sessionWorld_fields)
qed

subsection \<open>The channels by which a handler bears on the bypass\<close>

lemma accounted_refl: "accounted rel wr ses u u"
  by (simp add: accounted_def)

lemma accounted_trans:
  assumes ab: "accounted rel wr ses a b" and bc: "accounted rel wr ses b c"
  shows "accounted rel wr ses a c"
  unfolding accounted_def
proof (intro conjI allI impI)
  fix x show "conntrackID (heap c x) = conntrackID (heap a x)"
    using ab bc by (simp add: accounted_def)
next
  fix x show "set (subscriptions (heap c x)) \<subseteq> set (subscriptions (heap a x))"
    using ab bc unfolding accounted_def by blast
next
  fix x kv
  assume "kv \<in> set (subscriptions (heap a x))" "kv \<notin> set (subscriptions (heap c x))"
  then show "rel x (fst kv)" using ab bc unfolding accounted_def by blast
next
  fix x
  assume ch: "dictSessions c x ''bypass_packetd'' \<noteq> dictSessions a x ''bypass_packetd''"
  show "wr x \<or> (\<exists>s. ses s \<and> conntrackID (heap a s) = x \<and> subscriptions (heap c s) = [])"
  proof (cases "dictSessions b x ''bypass_packetd'' = dictSessions a x ''bypass_packetd''")
    case True
    with ch have "dictSessions c x ''bypass_packetd'' \<noteq> dictSessions b x ''bypass_packetd''" by simp
    with bc have "wr x \<or> (\<exists>s. ses s \<and> conntrackID (heap b s) = x \<and> subscriptions (heap c s) = [])"
      by (simp add: accounted_def)
    moreover have "\<And>s. conntrackID (heap b s) = conntrackID (heap a s)" using ab by (simp add: accounted_def)
    ultimately show ?thesis by simp
  next
    case False
    with ab have "wr x \<or> (\<exists>s. ses s \<and> conntrackID (heap a s) = x \<and> subscriptions (heap b s) = [])"
      by (simp add: accounted_def)
    moreover have "\<And>s. subscriptions (heap b s) = [] \<Longrightarrow> subscriptions (heap c s) = []"
    proof -
      fix s assume "subscriptions (heap b s) = []"
      moreover have "set (subscriptions (heap c s)) \<subseteq> set (subscriptions (heap b s))"
        using bc by (simp add: accounted_def)
      ultimately show "subscriptions (heap c s) = []" by simp
    qed
    ultimately show ?thesis by blast
  qed
qed

lemma in_deleteKey: "kv \<in> set m \<Longrightarrow> kv \<notin> set (deleteKey k m) \<Longrightarrow> fst kv = k"
  by (auto simp: deleteKey_def)

lemma accounted_ReleaseSession:
  assumes "rel b k" and "ses b"
  shows "accounted rel wr ses u (ReleaseSession b k u)"
  unfolding accounted_def
proof (intro conjI allI impI)
  fix a show "conntrackID (heap (ReleaseSession b k u) a) = conntrackID (heap u a)"
    by (simp add: ReleaseSession_heap)
next
  fix a show "set (subscriptions (heap (ReleaseSession b k u) a)) \<subseteq> set (subscriptions (heap u a))"
    using set_deleteKey by (simp add: ReleaseSession_heap)
next
  fix a kv
  assume "kv \<in> set (subscriptions (heap u a))" "kv \<notin> set (subscriptions (heap (ReleaseSession b k u) a))"
  then show "rel a (fst kv)"
    using assms(1) in_deleteKey [of kv "subscriptions (heap u b)" k]
    by (cases "a = b") (auto simp: ReleaseSession_heap)
next
  fix c
  assume "dictSessions (ReleaseSession b k u) c ''bypass_packetd'' \<noteq> dictSessions u c ''bypass_packetd''"
  then have "c = conntrackID (heap u b) \<and> deleteKey k (subscriptions (heap u b)) = []"
    by (auto simp: ReleaseSession_dict split: if_splits)
  then have "ses b \<and> conntrackID (heap u b) = c \<and> subscriptions (heap (ReleaseSession b k u) b) = []"
    using assms(2) by (simp add: ReleaseSession_heap)
  then show "wr c \<or> (\<exists>a. ses a \<and> conntrackID (heap u a) = c \<and> subscriptions (heap (ReleaseSession b k u) a) = [])"
    by blast
qed

lemma accounted_same:
  assumes "\<And>a. conntrackID (heap u' a) = conntrackID (heap u a)"
    and "\<And>a. subscriptions (heap u' a) = subscriptions (heap u a)"
    and "\<And>c. dictSessions u' c ''bypass_packetd'' = dictSessions u c ''bypass_packetd''"
  shows "accounted rel wr ses u u'"
  using assms by (simp add: accounted_def)

lemma accounted_AddSessionEntry:
  assumes "f = ''bypass_packetd'' \<Longrightarrow> wr c"
  shows "accounted rel wr ses u (AddSessionEntry c f v u)"
  using assms by (auto simp: accounted_def AddSessionEntry_def)

lemma accounted_runAction:
  assumes run: "runAction s act u = (ok, u')"
    and rel: "\<And>b k. s = Some b \<Longrightarrow> act = CallReleaseSession k \<Longrightarrow> rel b k \<and> ses b"
    and wr: "\<And>c. writesEntry c act \<Longrightarrow> wr c"
  shows "accounted rel wr ses u u'"
proof (cases act)
  case (CallReleaseSession k)
  then show ?thesis using run rel
    by (cases s) (auto simp: accounted_refl accounted_ReleaseSession)
next
  case (CallAddSessionEntry c f v)
  then show ?thesis using run wr [of c]
    by (auto intro: accounted_AddSessionEntry)
next
  case (CallPutAttachment k v)
  then show ?thesis using run
    by (cases s) (auto simp: accounted_refl PutAttachment_def updSession_def intro: accounted_same)
next
  case (CallLogEvent e)
  then show ?thesis using run by (cases s) (auto simp: accounted_refl)
qed

lemma pipeline_accounted:
  assumes cs: "callSubscribers ctid session mess pmark ns w = (out, w')"
  shows "(\<forall>a kv. kv \<in> set (subscriptions (heap w a)) \<and> kv \<notin> set (subscriptions (heap w' a)) \<longrightarrow>
            (a = session \<and> returnsRelease (subscriptions (heap w session)) mess ctid ns (fst kv)) \<or>
            (Session mess = Some a \<and> callsRelease (subscriptions (heap w session)) mess ctid ns (fst kv))) \<and>
         (\<forall>c. dictSessions w' c ''bypass_packetd'' \<noteq> dictSessions w c ''bypass_packetd'' \<longrightarrow>
            writesBypassEntry (subscriptions (heap w session)) mess ctid ns c \<or>
            (\<exists>a. (a = session \<or> Session mess = Some a) \<and> conntrackID (heap w a) = c \<and>
                 subscriptions (heap w' a) = []))"
proof -
  let ?S = "subscriptions (heap w session)"
  let ?rel = "\<lambda>a k. (a = session \<and> returnsRelease ?S mess ctid ns k) \<or>
                     (Session mess = Some a \<and> callsRelease ?S mess ctid ns k)"
  let ?wr = "writesBypassEntry ?S mess ctid ns"
  let ?ses = "\<lambda>a. a = session \<or> Session mess = Some a"
  have "accounted ?rel ?wr ?ses w w'"
  proof (rule callSubscribers_rel [where R = "accounted ?rel ?wr ?ses", OF accounted_refl _ cs])
    fix a b c
    assume "accounted ?rel ?wr ?ses a b" "accounted ?rel ?wr ?ses b c"
    then show "accounted ?rel ?wr ?ses a c" by (rule accounted_trans)
  next
    fix key val act u ok u'
    assume mem: "(key, val) \<in> set ?S"
      and act: "act \<in> set (fst (NfqueueFunc val mess ctid ns))"
      and run: "runAction (Session mess) act u = (ok, u')"
    show "accounted ?rel ?wr ?ses u u'"
    proof (rule accounted_runAction [OF run])
      fix b k
      assume "Session mess = Some b" "act = CallReleaseSession k"
      with mem act show "?rel b k \<and> ?ses b" by (force simp: callsRelease_def)
    next
      fix c
      assume "writesEntry c act"
      with mem act show "?wr c" by (force simp: writesBypassEntry_def)
    qed
  next
    fix key val res u
    assume "(key, val) \<in> set ?S" "snd (NfqueueFunc val mess ctid ns) = Returns res" "SessionRelease res"
    then have "returnsRelease ?S mess ctid ns key" by (force simp: returnsRelease_def)
    then show "accounted ?rel ?wr ?ses u (ReleaseSession session key u)"
      by (intro accounted_ReleaseSession) simp_all
  next
    fix l u show "accounted ?rel ?wr ?ses u (logger l u)"
      by (rule accounted_same) (simp_all add: logger_def)
  next
    fix key u show "accounted ?rel ?wr ?ses u (u\<lparr>invoked := invoked u @ [(key, ctid, ns)]\<rparr>)"
      by (rule accounted_same) simp_all
  next
    assume "subscriptions (heap w session) = []"
    then show "accounted ?rel ?wr ?ses w (AddSessionEntry (conntrackID (heap w session)) ''bypass_packetd'' (DBool True) w)"
      by (auto simp: accounted_def AddSessionEntry_def)
  qed
  then show ?thesis unfolding accounted_def by blast
qed


lemma geoipTask_eval:
  "(let r = geoipTask
    in fst r = Sent \<lparr>owner = ''geoip'', sessionRelease = False\<rparr> \<and>
       map fst (subscriptions (heap (snd r) 0)) = [''a'', ''b''] \<and>
       dictSessions (snd r) 7 ''bypass_packetd'' = None)"
  by (simp add: geoipTask_def mixedSubs_def evals cong: let_weak_cong)

lemma mixedRun_eval:
  "(let r = mixedRun
    in fst r = Returned NfAccept \<and>
       invoked (snd r) = [(''geoip'', 7, False), (''a'', 7, False), (''b'', 7, False)] \<and>
       map fst (subscriptions (heap (snd r) 0)) = [''a''] \<and>
       dictSessions (snd r) 7 ''bypass_packetd'' = None)"
  by (simp add: mixedRun_def mixedSubs_def evals cong: let_weak_cong)

lemma mixed_channels:
  "callsRelease [subscription ''geoip'' 0 geoipHandler] (tcpMessage\<lparr>Session := Some 0\<rparr>) 7 False ''geoip''"
  "\<not> callsRelease [subscription ''geoip'' 0 geoipHandler] (tcpMessage\<lparr>Session := Some 0\<rparr>) 7 False ''a''"
  "callsRelease mixedSubs (tcpMessage\<lparr>Session := Some 0\<rparr>) 7 False ''geoip''"
  "returnsRelease mixedSubs (tcpMessage\<lparr>Session := Some 0\<rparr>) 7 False ''b''"
  "\<not> callsRelease mixedSubs (tcpMessage\<lparr>Session := Some 0\<rparr>) 7 False ''a''"
  "\<not> returnsRelease mixedSubs (tcpMessage\<lparr>Session := Some 0\<rparr>) 7 False ''a''"
  "\<not> writesBypassEntry mixedSubs (tcpMessage\<lparr>Session := Some 0\<rparr>) 7 False 7"
  by (simp_all add: callsRelease_def returnsRelease_def writesBypassEntry_def mixedSubs_def
      subscription_def geoipHandler_def PluginNfqueueHandler_def pluginName_def keepHandler_def
      releaseHandler_def)

text \<open>
  C6, as amended. A handler bears on the bypass of a flow through the
  \<^verbatim>\<open>SessionRelease\<close> flag of the result it returns, or through the calls it makes itself
  during the invocation: a call of \<^verbatim>\<open>ReleaseSession\<close>, or a write of the
  \<^verbatim>\<open>bypass_packetd\<close> field of the dictionary. No change that bears on the bypass comes
  about in another way, for every handler invocation and every subscription list:
  \<^item> During one invocation of a handler (the task the dispatcher spawns for it) a
    subscription is gone afterwards only from the session of the message and only for an
    owner for whom the handler calls \<^verbatim>\<open>ReleaseSession\<close>, and a \<^verbatim>\<open>bypass_packetd\<close>
    entry differs afterwards only under a ctid under which the handler writes the field,
    or under the conntrack id of the session of the message when its subscription set is
    empty afterwards.
  \<^item> Over the whole pipeline of a packet, which invokes the handlers and acts on the
    results they return, a subscription is gone afterwards only if the handler subscribed
    under its owner returns with \<^verbatim>\<open>SessionRelease\<close> set, or if a subscribed handler
    calls \<^verbatim>\<open>ReleaseSession\<close> for its owner; and a \<^verbatim>\<open>bypass_packetd\<close> entry differs
    afterwards only under a ctid under which a subscribed handler writes the field, or
    under the conntrack id of the session when its subscription set is empty afterwards.
\<close>

theorem handlers_bypass_channels:
  "(pluginTask key val mess ctid ns u = (e, u') \<longrightarrow>
      (\<forall>a kv. kv \<in> set (subscriptions (heap u a)) \<and> kv \<notin> set (subscriptions (heap u' a)) \<longrightarrow>
         Session mess = Some a \<and> callsRelease [(key, val)] mess ctid ns (fst kv)) \<and>
      (\<forall>c. dictSessions u' c ''bypass_packetd'' \<noteq> dictSessions u c ''bypass_packetd'' \<longrightarrow>
         writesBypassEntry [(key, val)] mess ctid ns c \<or>
         (\<exists>a. Session mess = Some a \<and> conntrackID (heap u a) = c \<and> subscriptions (heap u' a) = []))) \<and>
   (callSubscribers ctid session mess pmark ns w = (out, w') \<longrightarrow>
      (\<forall>a kv. kv \<in> set (subscriptions (heap w a)) \<and> kv \<notin> set (subscriptions (heap w' a)) \<longrightarrow>
         (a = session \<and> returnsRelease (subscriptions (heap w session)) mess ctid ns (fst kv)) \<or>
         (Session mess = Some a \<and> callsRelease (subscriptions (heap w session)) mess ctid ns (fst kv))) \<and>
      (\<forall>c. dictSessions w' c ''bypass_packetd'' \<noteq> dictSessions w c ''bypass_packetd'' \<longrightarrow>
         writesBypassEntry (subscriptions (heap w session)) mess ctid ns c \<or>
         (\<exists>a. (a = session \<or> Session mess = Some a) \<and> conntrackID (heap w a) = c \<and>
              subscriptions (heap w' a) = [])))"
proof (intro conjI impI)
  assume pt: "pluginTask key val mess ctid ns u = (e, u')"
  let ?rel = "\<lambda>a k. Session mess = Some a \<and> callsRelease [(key, val)] mess ctid ns k"
  let ?wr = "writesBypassEntry [(key, val)] mess ctid ns"
  let ?ses = "\<lambda>a. Session mess = Some a"
  have acc: "accounted ?rel ?wr ?ses u u'"
  proof (rule pluginTask_rel [where R = "accounted ?rel ?wr ?ses", OF accounted_refl _ pt])
    fix a b c
    assume "accounted ?rel ?wr ?ses a b" "accounted ?rel ?wr ?ses b c"
    then show "accounted ?rel ?wr ?ses a c" by (rule accounted_trans)
  next
    fix act x ok x'
    assume act: "act \<in> set (fst (NfqueueFunc val mess ctid ns))"
      and run: "runAction (Session mess) act x = (ok, x')"
    show "accounted ?rel ?wr ?ses x x'"
    proof (rule accounted_runAction [OF run])
      fix b k
      assume "Session mess = Some b" "act = CallReleaseSession k"
      with act show "?rel b k \<and> ?ses b" by (simp add: callsRelease_def)
    next
      fix c
      assume "writesEntry c act"
      with act show "?wr c" by (force simp: writesBypassEntry_def)
    qed
  next
    fix l x show "accounted ?rel ?wr ?ses x (logger l x)"
      by (rule accounted_same) (simp_all add: logger_def)
  next
    fix x show "accounted ?rel ?wr ?ses x (x\<lparr>invoked := invoked x @ [(key, ctid, ns)]\<rparr>)"
      by (rule accounted_same) simp_all
  qed
  show "\<forall>a kv. kv \<in> set (subscriptions (heap u a)) \<and> kv \<notin> set (subscriptions (heap u' a)) \<longrightarrow>
         Session mess = Some a \<and> callsRelease [(key, val)] mess ctid ns (fst kv)"
    using acc unfolding accounted_def by blast
  show "\<forall>c. dictSessions u' c ''bypass_packetd'' \<noteq> dictSessions u c ''bypass_packetd'' \<longrightarrow>
         writesBypassEntry [(key, val)] mess ctid ns c \<or>
         (\<exists>a. Session mess = Some a \<and> conntrackID (heap u a) = c \<and> subscriptions (heap u' a) = [])"
    using acc unfolding accounted_def by blast
next
  assume cs: "callSubscribers ctid session mess pmark ns w = (out, w')"
  note r = pipeline_accounted [OF cs]
  show "\<forall>a kv. kv \<in> set (subscriptions (heap w a)) \<and> kv \<notin> set (subscriptions (heap w' a)) \<longrightarrow>
         (a = session \<and> returnsRelease (subscriptions (heap w session)) mess ctid ns (fst kv)) \<or>
         (Session mess = Some a \<and> callsRelease (subscriptions (heap w session)) mess ctid ns (fst kv))"
    using r by blast
  show "\<forall>c. dictSessions w' c ''bypass_packetd'' \<noteq> dictSessions w c ''bypass_packetd'' \<longrightarrow>
         writesBypassEntry (subscriptions (heap w session)) mess ctid ns c \<or>
         (\<exists>a. (a = session \<or> Session mess = Some a) \<and> conntrackID (heap w a) = c \<and>
              subscriptions (heap w' a) = [])"
    using r by blast
qed

lemma geoipRun_eval:
  "(let r = geoipRun
    in fst r = Returned NfAccept \<and>
       invoked (snd r) = [(''geoip'', 7, False)] \<and>
       subscriptions (heap (snd r) 0) = [] \<and>
       dictSessions (snd r) 7 ''bypass_packetd'' = Some (DBool True))"
  by (simp add: geoipRun_def evals cong: let_weak_cong)

text \<open>
  The claim that the returned flag is the only channel fails on the geoip handler: it
  returns \<^verbatim>\<open>SessionRelease = false\<close>, and yet its subscription is gone and
  \<^verbatim>\<open>bypass_packetd\<close> is written after the invocation, by its own call of
  \<^verbatim>\<open>ReleaseSession\<close>.
\<close>

theorem handlers_bypass_channels_counterexample:
  "snd (geoipHandler (tcpMessage\<lparr>Session := Some 0\<rparr>) 7 False) = Returns \<lparr>SessionRelease = False\<rparr> \<and>
   map fst (subscriptions (heap (sessionWorld [subscription ''geoip'' 0 geoipHandler]) 0)) = [''geoip''] \<and>
   dictSessions (sessionWorld [subscription ''geoip'' 0 geoipHandler]) 7 ''bypass_packetd'' = None \<and>
   fst geoipRun = Returned NfAccept \<and>
   invoked (snd geoipRun) = [(''geoip'', 7, False)] \<and>
   subscriptions (heap (snd geoipRun) 0) = [] \<and>
   dictSessions (snd geoipRun) 7 ''bypass_packetd'' = Some (DBool True)"
  using geoipRun_eval [unfolded Let_def]
  by (simp add: geoipHandler_def PluginNfqueueHandler_def sessionWorld_fields subscription_def)

theorem handlers_bypass_channels_witness:
  "fst geoipTask = Sent \<lparr>owner = ''geoip'', sessionRelease = False\<rparr> \<and>
   callsRelease [subscription ''geoip'' 0 geoipHandler] (tcpMessage\<lparr>Session := Some 0\<rparr>) 7 False ''geoip'' \<and>
   \<not> callsRelease [subscription ''geoip'' 0 geoipHandler] (tcpMessage\<lparr>Session := Some 0\<rparr>) 7 False ''a'' \<and>
   subscription ''a'' 1 keepHandler \<in> set (subscriptions (heap (snd geoipTask) 0)) \<and>
   fst mixedRun = Returned NfAccept \<and>
   map fst (subscriptions (heap (sessionWorld mixedSubs) 0)) = [''geoip'', ''a'', ''b''] \<and>
   map fst (subscriptions (heap (snd mixedRun) 0)) = [''a''] \<and>
   callsRelease mixedSubs (tcpMessage\<lparr>Session := Some 0\<rparr>) 7 False ''geoip'' \<and>
   returnsRelease mixedSubs (tcpMessage\<lparr>Session := Some 0\<rparr>) 7 False ''b'' \<and>
   \<not> callsRelease mixedSubs (tcpMessage\<lparr>Session := Some 0\<rparr>) 7 False ''a'' \<and>
   \<not> returnsRelease mixedSubs (tcpMessage\<lparr>Session := Some 0\<rparr>) 7 False ''a'' \<and>
   subscription ''a'' 1 keepHandler \<in> set (subscriptions (heap (snd mixedRun) 0)) \<and>
   \<not> writesBypassEntry mixedSubs (tcpMessage\<lparr>Session := Some 0\<rparr>) 7 False 7 \<and>
   dictSessions (snd mixedRun) 7 ''bypass_packetd'' = dictSessions (sessionWorld mixedSubs) 7 ''bypass_packetd''"
proof -
  let ?m = "tcpMessage\<lparr>Session := Some 0\<rparr>"
  let ?w = "sessionWorld mixedSubs"
  let ?g = "snd (subscription ''geoip'' 0 geoipHandler)"
  note t = handlers_bypass_channels [of "''geoip''" ?g ?m 7 False ?w "fst geoipTask" "snd geoipTask"
      0 0 ?w "fst mixedRun" "snd mixedRun"]
  have pt: "pluginTask ''geoip'' ?g ?m 7 False ?w = (fst geoipTask, snd geoipTask)"
    by (simp add: geoipTask_def)
  have cs: "callSubscribers 7 0 ?m 0 False ?w = (fst mixedRun, snd mixedRun)"
    by (simp add: mixedRun_def)
  have S: "subscriptions (heap ?w 0) = mixedSubs" by (simp add: sessionWorld_fields)
  have mem: "subscription ''a'' 1 keepHandler \<in> set (subscriptions (heap ?w 0))"
    unfolding S by (simp add: mixedSubs_def)
  have g: "(''geoip'', ?g) = subscription ''geoip'' 0 geoipHandler" by (simp add: subscription_def)
  have fa: "fst (subscription ''a'' 1 keepHandler) = ''a''" by (simp add: subscription_def)
  note t1 = t [THEN conjunct1, THEN mp, OF pt]
  note t2 = t [THEN conjunct2, THEN mp, OF cs]
  have k1: "subscription ''a'' 1 keepHandler \<in> set (subscriptions (heap (snd geoipTask) 0))"
  proof (rule ccontr)
    assume "subscription ''a'' 1 keepHandler \<notin> set (subscriptions (heap (snd geoipTask) 0))"
    with mem t1 [THEN conjunct1, rule_format, of "subscription ''a'' 1 keepHandler" 0]
    have "callsRelease [(''geoip'', ?g)] ?m 7 False (fst (subscription ''a'' 1 keepHandler))" by blast
    with mixed_channels(2) show False by (simp only: g fa)
  qed
  have k2: "subscription ''a'' 1 keepHandler \<in> set (subscriptions (heap (snd mixedRun) 0))"
  proof (rule ccontr)
    assume "subscription ''a'' 1 keepHandler \<notin> set (subscriptions (heap (snd mixedRun) 0))"
    with mem t2 [THEN conjunct1, rule_format, of "subscription ''a'' 1 keepHandler" 0]
    have "returnsRelease (subscriptions (heap ?w 0)) ?m 7 False (fst (subscription ''a'' 1 keepHandler)) \<or>
          callsRelease (subscriptions (heap ?w 0)) ?m 7 False (fst (subscription ''a'' 1 keepHandler))"
      by blast
    with mixed_channels(5,6) show False by (simp only: S fa) blast
  qed
  have ne: "subscriptions (heap (snd mixedRun) 0) \<noteq> []" using k2 by auto
  have k3: "dictSessions (snd mixedRun) 7 ''bypass_packetd'' = dictSessions ?w 7 ''bypass_packetd''"
  proof (rule ccontr)
    assume "dictSessions (snd mixedRun) 7 ''bypass_packetd'' \<noteq> dictSessions ?w 7 ''bypass_packetd''"
    with t2 [THEN conjunct2, rule_format, of 7]
    have "writesBypassEntry (subscriptions (heap ?w 0)) ?m 7 False 7 \<or>
          (\<exists>a. (a = 0 \<or> Session ?m = Some a) \<and> conntrackID (heap ?w a) = 7 \<and>
               subscriptions (heap (snd mixedRun) a) = [])" by blast
    then have "\<exists>a. (a = 0 \<or> Session ?m = Some a) \<and> subscriptions (heap (snd mixedRun) a) = []"
      using mixed_channels(7) unfolding S by blast
    then have "subscriptions (heap (snd mixedRun) 0) = []" by auto
    with ne show False by simp
  qed
  have s0: "map fst (subscriptions (heap ?w 0)) = [''geoip'', ''a'', ''b'']"
    unfolding S by (simp add: mixedSubs_def subscription_def)
  have e1: "fst geoipTask = Sent \<lparr>owner = ''geoip'', sessionRelease = False\<rparr>"
    using geoipTask_eval [unfolded Let_def] by blast
  have e2: "fst mixedRun = Returned NfAccept" "map fst (subscriptions (heap (snd mixedRun) 0)) = [''a'']"
    using mixedRun_eval [unfolded Let_def] by blast+
  show ?thesis
    using k1 k2 k3 mixed_channels s0 e1 e2 by blast
qed


subsection \<open>A handler that does not return\<close>

text \<open>
  A task whose handler does not return forwards nothing to the results channel, so the
  tier of that handler delivers fewer results than the dispatcher waits for. Whatever the
  other subscribers do, \<^verbatim>\<open>callSubscribers\<close> returns no verdict when one subscribed
  handler with a priority from 0 to 100 never returns.
\<close>

lemma pluginTask_NeverReturns:
  "pluginTask key val mess ctid ns w = (e, w') \<Longrightarrow>
     snd (NfqueueFunc val mess ctid ns) = NeverReturns \<Longrightarrow> e = Crashed \<or> (\<exists>r. e = Kept r)"
  by (auto simp: pluginTask_def Let_def split: prod.splits if_splits HandlerEnd.splits)

lemma spawnTier_results:
  "spawnTier tier mess ctid ns w = (ends, w') \<Longrightarrow>
     length (resultsChannel ends) \<le> length tier \<and>
     (Crashed \<notin> set ends \<longrightarrow>
        (\<exists>kv\<in>set tier. snd (NfqueueFunc (snd kv) mess ctid ns) = NeverReturns) \<longrightarrow>
        length (resultsChannel ends) < length tier)"
proof (induction tier arbitrary: w ends w')
  case Nil
  then show ?case by simp
next
  case (Cons kv tier)
  obtain key val where kv: "kv = (key, val)" by (cases kv)
  obtain e w1 where pt: "pluginTask key val mess ctid ns w = (e, w1)"
    by (cases "pluginTask key val mess ctid ns w")
  show ?case
  proof (cases "e = Crashed")
    case True
    with Cons.prems kv pt have "ends = [Crashed]" by auto
    then show ?thesis by simp
  next
    case False
    obtain es w2 where st: "spawnTier tier mess ctid ns w1 = (es, w2)"
      by (cases "spawnTier tier mess ctid ns w1")
    from False Cons.prems kv pt st have eq: "ends = e # es"
      by (auto split: TaskEnd.splits)
    note ih = Cons.IH [OF st]
    have le: "length (resultsChannel (e # es)) \<le> Suc (length (resultsChannel es))"
      by (cases e) simp_all
    have sleeper: "snd (NfqueueFunc val mess ctid ns) = NeverReturns \<Longrightarrow>
                     length (resultsChannel (e # es)) = length (resultsChannel es)"
      using pluginTask_NeverReturns [OF pt] False by auto
    show ?thesis using ih le sleeper eq kv by auto
  qed
qed

lemma collectResults_short:
  "collectResults session hitcount chan w = (ok, w') \<Longrightarrow> length chan < hitcount \<Longrightarrow> \<not> ok"
  by (induction session hitcount chan w rule: collectResults.induct) auto

lemma priorityWalk_sleeper:
  assumes pw: "priorityWalk ctid session mess ns sublist subcount priority n w = (r, n', w')"
    and mem: "(key, val) \<in> set sublist"
    and sl: "snd (NfqueueFunc val mess ctid ns) = NeverReturns"
    and ge: "0 \<le> priority" and le: "priority \<le> Priority val" and hi: "Priority val \<le> 100"
    and cnt: "subcount = called sublist priority"
  shows "r \<noteq> None"
  using pw ge le cnt
proof (induction "nat (101 - priority)" arbitrary: subcount priority n w rule: less_induct)
  case less
  note pw = less.prems(1) and ge = less.prems(2) and le = less.prems(3) and cnt = less.prems(4)
  have "\<not> (0 \<le> Priority (snd (key, val)) \<and> Priority (snd (key, val)) < priority)" using le by simp
  with mem have "called sublist priority < length sublist"
    unfolding called_def by (rule length_filter_less)
  with cnt have False: "subcount \<noteq> length sublist" by simp
  let ?tier = "filter (\<lambda>kv. Priority (snd kv) = priority) sublist"
  obtain ends w1 where st: "spawnTier ?tier mess ctid ns w = (ends, w1)"
    by (cases "spawnTier ?tier mess ctid ns w")
  obtain ok w2 where cr: "collectResults session (length ?tier) (resultsChannel ends) w1 = (ok, w2)"
    by (cases "collectResults session (length ?tier) (resultsChannel ends) w1")
  show ?case
  proof (cases "Crashed \<notin> set ends \<and> ok \<and> \<not> priority + 1 > 100")
    case True
    have "priority \<noteq> Priority val"
    proof
      assume "priority = Priority val"
      with mem sl have "\<exists>kv\<in>set ?tier. snd (NfqueueFunc (snd kv) mess ctid ns) = NeverReturns"
        by force
      with spawnTier_results [OF st] True have "length (resultsChannel ends) < length ?tier" by blast
      with collectResults_short [OF cr] True show False by simp
    qed
    with le have le1: "priority + 1 \<le> Priority val" by simp
    have rec: "priorityWalk ctid session mess ns sublist (subcount + length ?tier) (priority + 1) (n + 1) w2 = (r, n', w')"
      using pw False st cr True by (simp add: priorityWalk.simps Let_def)
    have m: "nat (101 - (priority + 1)) < nat (101 - priority)" using True by simp
    have c: "subcount + length ?tier = called sublist (priority + 1)"
      using called_step [OF ge, of sublist] cnt by simp
    show ?thesis using less.hyps [OF m rec _ le1 c] ge by simp
  next
    case stop: False
    then show ?thesis using pw False st cr
      by (cases ok) (auto simp: priorityWalk.simps Let_def split: if_splits)
  qed
qed

lemma sleeper_never_returns:
  assumes mem: "(key, val) \<in> set (subscriptions (heap w session))"
    and sl: "snd (NfqueueFunc val mess ctid ns) = NeverReturns"
    and ge: "0 \<le> Priority val" and hi: "Priority val \<le> 100"
  shows "fst (callSubscribers ctid session mess pmark ns w) \<noteq> Returned v"
proof -
  obtain r n w1 where pw: "priorityWalk ctid session mess ns (subscriptions (heap w session)) 0 0 0 w = (r, n, w1)"
    by (cases "priorityWalk ctid session mess ns (subscriptions (heap w session)) 0 0 0 w")
  have "called (subscriptions (heap w session)) 0 = 0" by (simp add: called_def)
  then have "r \<noteq> None" using priorityWalk_sleeper [OF pw mem sl _ ge hi] by simp
  moreover have "r = None \<or> r = Some Blocked \<or> (\<exists>m. r = Some (Panicked m))"
    by (rule priorityWalk_out [OF pw])
  moreover have "subscriptions (heap w session) \<noteq> []" using mem by auto
  ultimately show ?thesis using pw
    by (auto simp: callSubscribers_def MirrorNfqueueSubscriptions_def Let_def)
qed

lemma timeoutRun_eval:
  "(let r = timeoutRun
    in fst r = Blocked \<and>
       map fst (subscriptions (heap (snd r) 0)) = [''slow'', ''late''] \<and>
       invoked (snd r) = [(''slow'', 7, True)] \<and>
       dictSessions (snd r) 7 ''bypass_packetd'' = None \<and>
       logged (snd r) = [LogCounted LogErr ''%OC|Timeout reached while processing nfqueue. plugin:%s''
                           ''nfqueue_plugin_timeout''])"
  by (simp add: timeoutRun_def evals cong: let_weak_cong)

text \<open>
  C1. The claim is that on a handler that does not return within the watchdog the
  dispatcher records a release for the plugin, logs the counted error, goes on with the
  later priorities and returns accept. The code sends the synthesised release on the
  task's own channel \<^verbatim>\<open>c\<close>, not on the results channel the dispatcher reads: with a
  subscriber at priority 3 that sleeps for ever and one at priority 5, the callback logs
  the error and then waits for ever. It returns no verdict, the subscription of the
  sleeping plugin is still there, the later tier is never invoked and no bypass is written.
\<close>

theorem plugin_timeout_blocks:
  "fst timeoutRun = Blocked \<and>
   map fst (subscriptions (heap (snd timeoutRun) 0)) = [''slow'', ''late''] \<and>
   invoked (snd timeoutRun) = [(''slow'', 7, True)] \<and>
   dictSessions (snd timeoutRun) 7 ''bypass_packetd'' = None \<and>
   logged (snd timeoutRun) = [LogCounted LogErr ''%OC|Timeout reached while processing nfqueue. plugin:%s''
                                ''nfqueue_plugin_timeout'']"
  by (rule timeoutRun_eval [unfolded Let_def])

subsection \<open>The bypass protocol\<close>



















text \<open>
  The entry the callback relies on being clear. The callback never clears a
  \<^verbatim>\<open>bypass_packetd\<close> entry; on a first packet it creates the session and leaves the
  dictionary as it is (\<^verbatim>\<open>this is a new session its already been flushed\<close>). Were the entry
  of a ctid still set when a first packet arrives for it, the new session would have its
  subscribers under a set entry, as in the run below. The ruleset rules this out: the
  queue chain flushes the entry of a packet in conntrack state new, returns on a set
  entry, and sets the new-packet bit of the mark only on a packet in state new, so that no
  packet it queues has a set entry.
\<close>

lemma reuseRun_eval:
  "(let r = reuseRun
    in dictSessions (snd r) 7 ''bypass_packetd'' = Some (DBool True) \<and>
       sessionTable (snd r) 7 = Some 0 \<and>
       map fst (subscriptions (heap (snd r) 0)) = [''a''])"
  by (simp add: reuseRun_def evals cong: let_weak_cong)

lemma stale_entry_without_flush: "\<not> bypassSound (snd reuseRun)"
proof -
  note e = reuseRun_eval [unfolded Let_def]
  then have "subscriptions (heap (snd reuseRun) 0) \<noteq> []" by auto
  with e show ?thesis unfolding bypassSound_def by blast
qed

lemma queued_not_bypassed:
  "runHook devnet a1 a2 chain k = (NftQueue, k') \<Longrightarrow> \<not> dictBypass k'"
  by (cases chain; cases devnet)
     (auto simp: runHook_def insert_packetd_rules_def split: if_splits)

lemma queued_new_mark:
  "runHook devnet a1 a2 chain k = (NftQueue, k') \<Longrightarrow> kMark k AND 0x10000000 = 0 \<Longrightarrow>
     (kMark k' AND 0x10000000 \<noteq> 0) = (ctState k = CtNew)"
  by (cases chain; cases devnet)
     (auto simp: runHook_def insert_packetd_rules_def split: if_splits)







subsection \<open>The bypass bit of the ruleset\<close>

lemma or_bypass_bit: "(m OR 0x80000000) AND 0x80000000 = (0x80000000 :: 32 word)"
  by (simp add: bit.conj_disj_distrib2)

lemma queue_chain_bypassed:
  assumes "ctMark k AND 0x80000000 = 0x80000000"
  shows "fst (runRules cs n (insert_packetd_rules devnet a1 a2 PacketdQueue) k) = NftAccept"
  using assms by (cases devnet) (simp_all add: insert_packetd_rules_def)

lemma queue_chain_ctMark:
  "ctMark (snd (runRules cs n (insert_packetd_rules devnet a1 a2 PacketdQueue) k)) = ctMark k"
  by (cases devnet) (simp_all add: insert_packetd_rules_def)

lemma output_hook:
  "fst (runHook devnet a1 a2 PacketdOutput k) =
     fst (runRules (insert_packetd_rules devnet a1 a2) 0 (insert_packetd_rules devnet a1 a2 PacketdQueue)
            (if ctState k = CtNew then k\<lparr>ctMark := ctMark k OR 0x80000000\<rparr> else k))"
  "ctMark (snd (runHook devnet a1 a2 PacketdOutput k)) =
     (if ctState k = CtNew then ctMark k OR 0x80000000 else ctMark k)"
  by (simp_all add: runHook_def insert_packetd_rules_def [of _ _ _ PacketdOutput] queue_chain_ctMark)

lemma input_hook:
  "fst (runHook devnet a1 a2 PacketdInput k) = NftAccept"
  "ctMark (snd (runHook devnet a1 a2 PacketdInput k)) =
     (if ctState k = CtNew \<and> \<not> ((kProto k = ProtoUDP \<or> kProto k = ProtoTCP) \<and> kDport k = 53)
      then ctMark k OR 0x80000000 else ctMark k)"
  by (auto simp: runHook_def insert_packetd_rules_def)

lemma prerouting_hook:
  "runHook devnet a1 a2 PacketdPrerouting k =
     runRules (insert_packetd_rules devnet a1 a2) 0 (insert_packetd_rules devnet a1 a2 PacketdQueue) k"
  by (simp add: runHook_def insert_packetd_rules_def [of _ _ _ PacketdPrerouting])

text \<open>
  C9, as amended. The ruleset sets bit \<^verbatim>\<open>0x80000000\<close> of the conntrack mark on every
  new locally generated flow, at the output hook and before the queue chain is reached,
  so that the first packet of such a flow is accepted and not queued; it sets the bit on
  every new flow that reaches the input hook, except for UDP and TCP destination port 53;
  and a packet whose conntrack mark has the bit is queued by no chain, so that once the
  bit is set no later packet of the flow goes to userspace. (The first packet of an
  inbound flow has passed the prerouting hook before the input hook sets the bit.)
\<close>

theorem ruleset_bypass_bit:
  "(ctState k = CtNew \<longrightarrow>
      fst (traverse devnet a1 a2 localOutbound k) = NftAccept \<and>
      ctMark (snd (traverse devnet a1 a2 localOutbound k)) AND 0x80000000 = 0x80000000) \<and>
   (ctState k = CtNew \<and> \<not> ((kProto k = ProtoUDP \<or> kProto k = ProtoTCP) \<and> kDport k = 53) \<longrightarrow>
      fst (runHook devnet a1 a2 PacketdInput k) = NftAccept \<and>
      ctMark (snd (runHook devnet a1 a2 PacketdInput k)) AND 0x80000000 = 0x80000000) \<and>
   (ctMark k AND 0x80000000 = 0x80000000 \<longrightarrow>
      fst (runHook devnet a1 a2 chain k) = NftAccept)"
proof (intro conjI impI)
  assume n: "ctState k = CtNew"
  have a: "fst (runHook devnet a1 a2 PacketdOutput k) = NftAccept"
    using n by (simp add: output_hook queue_chain_bypassed or_bypass_bit)
  have m: "ctMark (snd (runHook devnet a1 a2 PacketdOutput k)) AND 0x80000000 = 0x80000000"
    using n by (simp add: output_hook or_bypass_bit)
  obtain v k1 where r: "runHook devnet a1 a2 PacketdOutput k = (v, k1)"
    by (cases "runHook devnet a1 a2 PacketdOutput k")
  with a m show "fst (traverse devnet a1 a2 localOutbound k) = NftAccept"
    "ctMark (snd (traverse devnet a1 a2 localOutbound k)) AND 0x80000000 = 0x80000000"
    by (simp_all add: localOutbound_def)
next
  assume "ctState k = CtNew \<and> \<not> ((kProto k = ProtoUDP \<or> kProto k = ProtoTCP) \<and> kDport k = 53)"
  then show "fst (runHook devnet a1 a2 PacketdInput k) = NftAccept"
    "ctMark (snd (runHook devnet a1 a2 PacketdInput k)) AND 0x80000000 = 0x80000000"
    by (simp_all add: input_hook or_bypass_bit)
next
  assume b: "ctMark k AND 0x80000000 = 0x80000000"
  show "fst (runHook devnet a1 a2 chain k) = NftAccept"
  proof (cases chain)
    case PacketdPrerouting
    then show ?thesis using b by (simp add: prerouting_hook queue_chain_bypassed)
  next
    case PacketdInput
    then show ?thesis by (simp add: input_hook)
  next
    case PacketdOutput
    then show ?thesis using b by (simp add: output_hook queue_chain_bypassed or_bypass_bit)
  next
    case PacketdQueue
    then show ?thesis using b by (simp add: runHook_def queue_chain_bypassed)
  qed
qed

text \<open>
  That inbound flows for the host are never queued fails: the first packet of an ssh
  connection to the host is queued at the prerouting hook.
\<close>

theorem ruleset_bypass_bit_counterexample:
  "ctState sshSyn = CtNew \<and> kDport sshSyn \<noteq> 53 \<and>
   fst (traverse None ''0'' ''0'' localInbound sshSyn) = NftQueue"
  by (simp add: localInbound_def runHook_def insert_packetd_rules_def sshSyn_def
      loopbackNet_def loopbackHost6_def IPv6loopback_def)

theorem ruleset_bypass_bit_witness:
  "ctState sshSyn = CtNew \<and>
   \<not> ((kProto sshSyn = ProtoUDP \<or> kProto sshSyn = ProtoTCP) \<and> kDport sshSyn = 53) \<and>
   fst (traverse None ''0'' ''0'' localOutbound sshSyn) = NftAccept \<and>
   ctMark (snd (traverse None ''0'' ''0'' localOutbound sshSyn)) AND 0x80000000 = 0x80000000 \<and>
   fst (runHook None ''0'' ''0'' PacketdInput sshSyn) = NftAccept \<and>
   ctMark (snd (runHook None ''0'' ''0'' PacketdInput sshSyn)) AND 0x80000000 = 0x80000000 \<and>
   ctMark (sshSyn\<lparr>ctMark := 0x80000000, ctState := CtEstablished\<rparr>) AND 0x80000000 = 0x80000000 \<and>
   fst (runHook None ''0'' ''0'' PacketdPrerouting (sshSyn\<lparr>ctMark := 0x80000000, ctState := CtEstablished\<rparr>))
     = NftAccept"
proof -
  have n: "ctState sshSyn = CtNew" by (simp add: sshSyn_def)
  have d: "\<not> ((kProto sshSyn = ProtoUDP \<or> kProto sshSyn = ProtoTCP) \<and> kDport sshSyn = 53)"
    by (simp add: sshSyn_def)
  have b: "ctMark (sshSyn\<lparr>ctMark := 0x80000000, ctState := CtEstablished\<rparr>) AND 0x80000000 = 0x80000000"
    by simp
  show ?thesis
    using n d b ruleset_bypass_bit [of sshSyn None "''0''" "''0''" PacketdPrerouting]
      ruleset_bypass_bit [of "sshSyn\<lparr>ctMark := 0x80000000, ctState := CtEstablished\<rparr>" None "''0''" "''0''" PacketdPrerouting]
    by simp
qed


end
